theory Spec2Isabelle
  imports Complex_Main
begin

section \<open>Long-document embedding pipeline of the BigQuery quick-start notebook\<close>

text \<open>
  The notebook \<^verbatim>\<open>Getting_started_with_bigquery_vector_search_and_openai.ipynb\<close>
  defines \<^verbatim>\<open>batched\<close>, \<^verbatim>\<open>chunked_tokens\<close>, \<^verbatim>\<open>generate_embeddings\<close>,
  \<^verbatim>\<open>len_safe_get_embedding\<close>, \<^verbatim>\<open>categorize_text\<close>, \<^verbatim>\<open>process_file\<close> and a
  thread-pool loop over the files of a folder. They are embedded here function by
  function. The tokenizer, the embedding service, the chat service, the file system and
  the JSON encoder are libraries outside the notebook: they are parameters of the model
  (the record \<open>services\<close>), and each call that can raise returns a sum whose left
  injection is the exception.
\<close>

subsection \<open>Exceptions, generator steps\<close>

datatype py_error =
    ValueError string
  | IndexError
  | UnboundLocalError string
  | LibraryError string

text \<open>What one call of \<^verbatim>\<open>next\<close> on a Python generator can do.\<close>

datatype 'a step = Yield 'a | StopIteration | Raise py_error

subsection \<open>\<^verbatim>\<open>batched\<close>\<close>

text \<open>
  \<^verbatim>\<open>
  def batched(iterable, n):
      if n < 1:
          raise ValueError('n must be at least one')
      it = iter(iterable)
      while (batch := tuple(islice(it, n))):
          yield batch
  \<close>
  The function is a generator function: calling it runs nothing of the body and returns
  a generator object. The body runs on the first \<^verbatim>\<open>next\<close>, up to the first
  \<^verbatim>\<open>yield\<close>; a generator that has returned or raised is finished for good. The
  generator object is a state: created (arguments not yet looked at), suspended at the
  \<^verbatim>\<open>yield\<close> (holding the rest of the iterator \<^verbatim>\<open>it\<close> and \<^verbatim>\<open>n\<close>), or finished.
\<close>

datatype 'a batched_gen =
    Batched_Created "'a list" int
  | Batched_Suspended "'a list" int
  | Batched_Finished

definition batched :: "'a list \<Rightarrow> int \<Rightarrow> 'a batched_gen" where
  "batched iterable n = Batched_Created iterable n"

text \<open>
  \<^verbatim>\<open>itertools.islice(it, n)\<close> accepts a stop argument between 0 and
  \<^verbatim>\<open>sys.maxsize\<close> only (\<open>2^63 - 1\<close> on the 64-bit CPython the notebook runs on) and
  raises \<^verbatim>\<open>ValueError\<close> when it is built with any other integer, whatever the iterator
  holds. Within the range, \<^verbatim>\<open>tuple(islice(it, n))\<close> takes the next \<open>n\<close> items off the
  iterator: the result is the items taken and what the iterator has left.
\<close>

definition sys_maxsize :: int where
  "sys_maxsize = 2 ^ 63 - 1"

definition islice :: "'a list \<Rightarrow> int \<Rightarrow> py_error + ('a list \<times> 'a list)" where
  "islice it n =
     (if n < 0 \<or> sys_maxsize < n
      then Inl (ValueError
        ''Stop argument for islice() must be None or an integer: 0 <= x <= sys.maxsize.'')
      else Inr (take (nat n) it, drop (nat n) it))"

text \<open>One test of the \<^verbatim>\<open>while\<close> condition: the \<^verbatim>\<open>islice\<close> call may raise, which
  ends the generator; an empty tuple is falsy and ends the loop.\<close>

definition batched_resume :: "'a list \<Rightarrow> int \<Rightarrow> 'a list step \<times> 'a batched_gen" where
  "batched_resume it n =
     (case islice it n of
        Inl e \<Rightarrow> (Raise e, Batched_Finished)
      | Inr (batch, rest) \<Rightarrow>
          if batch = [] then (StopIteration, Batched_Finished)
          else (Yield batch, Batched_Suspended rest n))"

fun batched_next :: "'a batched_gen \<Rightarrow> 'a list step \<times> 'a batched_gen" where
  "batched_next (Batched_Created iterable n) =
     (if n < 1 then (Raise (ValueError ''n must be at least one''), Batched_Finished)
      else batched_resume iterable n)"
| "batched_next (Batched_Suspended it n) = batched_resume it n"
| "batched_next Batched_Finished = (StopIteration, Batched_Finished)"

subsection \<open>The libraries the notebook calls\<close>

type_synonym token = nat

text \<open>A \<^verbatim>\<open>tiktoken\<close> encoding object: \<^verbatim>\<open>encode\<close> can raise (on a disallowed
  special token), \<^verbatim>\<open>decode\<close> replaces what it cannot decode.\<close>

record encoding =
  encode :: "string \<Rightarrow> py_error + token list"
  decode :: "token list \<Rightarrow> string"

text \<open>
  \<^item> \<open>get_encoding\<close>: \<^verbatim>\<open>tiktoken.get_encoding(encoding_name)\<close>, which raises on an
    unknown name;
  \<^item> \<open>embeddings_create model input\<close>: \<^verbatim>\<open>openai_client.embeddings.create(model=model,
    input=text).data[0].embedding\<close>;
  \<^item> \<open>chat_completions_create model messages\<close>:
    \<^verbatim>\<open>openai_client.chat.completions.create(model=..., messages=...).choices[0].message.content\<close>,
    the messages as (role, content) pairs;
  \<^item> \<open>read_text\<close>: \<^verbatim>\<open>open(file_path, 'r', encoding='utf-8').read()\<close>;
  \<^item> \<open>pdf_pages\<close>: \<^verbatim>\<open>page.extract_text()\<close> of every page of \<^verbatim>\<open>PdfReader(pdf_path).pages\<close>;
  \<^item> \<open>json_dumps\<close>: \<^verbatim>\<open>json.dumps\<close> on an embedding vector.

  The notebook never looks inside an embedding vector, so its type is the parameter \<open>'v\<close>.
\<close>

record 'v services =
  get_encoding :: "string \<Rightarrow> py_error + encoding"
  embeddings_create :: "string \<Rightarrow> token list \<Rightarrow> py_error + 'v"
  chat_completions_create :: "string \<Rightarrow> (string \<times> string) list \<Rightarrow> py_error + string"
  read_text :: "string \<Rightarrow> py_error + string"
  pdf_pages :: "string \<Rightarrow> py_error + string list"
  json_dumps :: "'v \<Rightarrow> string"

subsection \<open>\<^verbatim>\<open>chunked_tokens\<close>\<close>

text \<open>
  \<^verbatim>\<open>
  def chunked_tokens(text, chunk_length, encoding_name='cl100k_base'):
      encoding = tiktoken.get_encoding(encoding_name)
      tokens = encoding.encode(text)
      chunks_iterator = batched(tokens, chunk_length)
      yield from chunks_iterator
  \<close>
  Again a generator function: the encoding is looked up and the text encoded on the
  first \<^verbatim>\<open>next\<close>, and from then on every \<^verbatim>\<open>next\<close> is passed to the inner generator.
\<close>

datatype chunked_gen =
    Chunked_Created string int string
  | Chunked_Delegating "token batched_gen"
  | Chunked_Finished

definition chunked_tokens :: "string \<Rightarrow> int \<Rightarrow> string \<Rightarrow> chunked_gen" where
  "chunked_tokens text chunk_length encoding_name =
     Chunked_Created text chunk_length encoding_name"

definition yield_from :: "token batched_gen \<Rightarrow> token list step \<times> chunked_gen" where
  "yield_from chunks_iterator =
     (case batched_next chunks_iterator of
        (Yield batch, g) \<Rightarrow> (Yield batch, Chunked_Delegating g)
      | (StopIteration, g) \<Rightarrow> (StopIteration, Chunked_Finished)
      | (Raise e, g) \<Rightarrow> (Raise e, Chunked_Finished))"

fun chunked_tokens_next :: "'v services \<Rightarrow> chunked_gen \<Rightarrow> token list step \<times> chunked_gen" where
  "chunked_tokens_next sv (Chunked_Created text chunk_length encoding_name) =
     (case get_encoding sv encoding_name of
        Inl e \<Rightarrow> (Raise e, Chunked_Finished)
      | Inr encoding \<Rightarrow>
          (case encode encoding text of
             Inl e \<Rightarrow> (Raise e, Chunked_Finished)
           | Inr tokens \<Rightarrow> yield_from (batched tokens chunk_length)))"
| "chunked_tokens_next sv (Chunked_Delegating chunks_iterator) = yield_from chunks_iterator"
| "chunked_tokens_next sv Chunked_Finished = (StopIteration, Chunked_Finished)"

text \<open>How many more chunks a generator can still yield is bounded by the tokens it has
  left; the loops over a generator below terminate by this measure.\<close>

fun batched_left :: "'a batched_gen \<Rightarrow> nat" where
  "batched_left (Batched_Created iterable n) = length iterable"
| "batched_left (Batched_Suspended it n) = length it"
| "batched_left Batched_Finished = 0"

fun chunked_left :: "'v services \<Rightarrow> chunked_gen \<Rightarrow> nat" where
  "chunked_left sv (Chunked_Created text chunk_length encoding_name) =
     (case get_encoding sv encoding_name of
        Inl e \<Rightarrow> 0
      | Inr encoding \<Rightarrow> (case encode encoding text of Inl e \<Rightarrow> 0 | Inr tokens \<Rightarrow> length tokens))"
| "chunked_left sv (Chunked_Delegating chunks_iterator) = batched_left chunks_iterator"
| "chunked_left sv Chunked_Finished = 0"

lemma batched_resume_left:
  "batched_resume it n = (Yield batch, g) \<Longrightarrow> batched_left g < length it"
  by (auto simp: batched_resume_def islice_def split: if_splits)

lemma batched_next_left:
  "batched_next b = (Yield batch, g) \<Longrightarrow> batched_left g < batched_left b"
  by (cases b) (auto dest: batched_resume_left split: if_splits)

lemma yield_from_left:
  "yield_from b = (Yield batch, g) \<Longrightarrow> chunked_left sv g < batched_left b"
  by (auto simp: yield_from_def dest: batched_next_left split: prod.splits step.splits)

lemma chunked_tokens_next_left:
  "chunked_tokens_next sv g = (Yield batch, g') \<Longrightarrow> chunked_left sv g' < chunked_left sv g"
  by (cases g) (auto simp: batched_def dest: yield_from_left split: sum.splits)

text \<open>Running a generator to its end, as \<^verbatim>\<open>list(g)\<close> or a \<^verbatim>\<open>for\<close> loop with an
  empty body does: the chunks it yields (or the exception that ends it) and the
  generator object as it is left behind.\<close>

function iterate :: "'v services \<Rightarrow> chunked_gen \<Rightarrow> (py_error + token list list) \<times> chunked_gen" where
  "iterate sv g =
     (case chunked_tokens_next sv g of
        (Yield chunk, g') \<Rightarrow>
          (case iterate sv g' of
             (Inl e, g'') \<Rightarrow> (Inl e, g'')
           | (Inr chunks, g'') \<Rightarrow> (Inr (chunk # chunks), g''))
      | (StopIteration, g') \<Rightarrow> (Inr [], g')
      | (Raise e, g') \<Rightarrow> (Inl e, g'))"
  by pat_completeness auto
termination
  by (relation "measure (\<lambda>(sv, g). chunked_left sv g)")
     (auto dest: chunked_tokens_next_left [OF sym])

declare iterate.simps [simp del]

subsection \<open>\<^verbatim>\<open>generate_embeddings\<close> and \<^verbatim>\<open>len_safe_get_embedding\<close>\<close>

definition EMBEDDING_CTX_LENGTH :: int where
  "EMBEDDING_CTX_LENGTH = 8191"

definition EMBEDDING_ENCODING :: string where
  "EMBEDDING_ENCODING = ''cl100k_base''"

definition embeddings_model :: string where
  "embeddings_model = ''text-embedding-3-small''"

text \<open>
  \<^verbatim>\<open>
  def generate_embeddings(text, model):
      embeddings_response = openai_client.embeddings.create(model=model, input=text)
      embedding = embeddings_response.data[0].embedding
      return embedding
  \<close>
  \<^verbatim>\<open>len_safe_get_embedding\<close> passes it a chunk, a tuple of token ids.
\<close>

definition generate_embeddings :: "'v services \<Rightarrow> token list \<Rightarrow> string \<Rightarrow> py_error + 'v" where
  "generate_embeddings sv text model = embeddings_create sv model text"

text \<open>
  \<^verbatim>\<open>
  def len_safe_get_embedding(text, model=embeddings_model, max_tokens=EMBEDDING_CTX_LENGTH,
                             encoding_name=EMBEDDING_ENCODING):
      chunk_embeddings = []
      chunk_texts = []
      for chunk in chunked_tokens(text, chunk_length=max_tokens, encoding_name=encoding_name):
          chunk_embeddings.append(generate_embeddings(chunk, model=model))
          chunk_texts.append(tiktoken.get_encoding(encoding_name).decode(chunk))
      return chunk_embeddings, chunk_texts
  \<close>
  The function has these four parameters and no other; it returns the two lists. The
  \<^verbatim>\<open>for\<close> loop asks the generator for one chunk at a time, and an exception of the
  generator, of the embedding request or of the encoding lookup leaves the function.
\<close>

function embedding_loop ::
  "'v services \<Rightarrow> string \<Rightarrow> string \<Rightarrow> chunked_gen \<Rightarrow> 'v list \<Rightarrow> string list
     \<Rightarrow> py_error + ('v list \<times> string list)" where
  "embedding_loop sv model encoding_name g chunk_embeddings chunk_texts =
     (case chunked_tokens_next sv g of
        (Raise e, g') \<Rightarrow> Inl e
      | (StopIteration, g') \<Rightarrow> Inr (chunk_embeddings, chunk_texts)
      | (Yield chunk, g') \<Rightarrow>
          (case generate_embeddings sv chunk model of
             Inl e \<Rightarrow> Inl e
           | Inr embedding \<Rightarrow>
               (case get_encoding sv encoding_name of
                  Inl e \<Rightarrow> Inl e
                | Inr encoding \<Rightarrow>
                    embedding_loop sv model encoding_name g'
                      (chunk_embeddings @ [embedding])
                      (chunk_texts @ [decode encoding chunk]))))"
  by pat_completeness auto
termination
  by (relation "measure (\<lambda>(sv, model, encoding_name, g, chunk_embeddings, chunk_texts).
        chunked_left sv g)")
     (auto dest: chunked_tokens_next_left [OF sym])

declare embedding_loop.simps [simp del]

definition len_safe_get_embedding ::
  "'v services \<Rightarrow> string \<Rightarrow> string \<Rightarrow> int \<Rightarrow> string \<Rightarrow> py_error + ('v list \<times> string list)" where
  "len_safe_get_embedding sv text model max_tokens encoding_name =
     embedding_loop sv model encoding_name
       (chunked_tokens text max_tokens encoding_name) [] []"

subsection \<open>\<^verbatim>\<open>categorize_text\<close>\<close>

text \<open>What the notebook prints, one constructor per \<^verbatim>\<open>print\<close> statement, with the
  values its f-string formats.\<close>

datatype log_line =
    Processing_file int string
  | Generated_title_embeddings string
  | Generated_content_embeddings string
  | Error_categorizing_text py_error
  | Categorized string "string option"
  | Appended_data nat nat string
  | Error_processing_file py_error

text \<open>\<^verbatim>\<open>sep.join(xs)\<close>\<close>

fun join :: "string \<Rightarrow> string list \<Rightarrow> string" where
  "join sep [] = []"
| "join sep [x] = x"
| "join sep (x # y # ys) = x @ sep @ join sep (y # ys)"

definition categories :: "string list" where
  "categories = [''authentication'', ''models'', ''techniques'', ''tools'', ''setup'',
     ''billing_limits'', ''other'']"

text \<open>
  \<^verbatim>\<open>
  def categorize_text(text, categories):
      messages = [
          {"role": "system", "content": f"""You are an expert in LLMs, ... documentation.
           Categorize the document into one of these categories: {', '.join(categories)}. Only respond with the category name and nothing else."""},
          {"role": "user", "content": text}
      ]
      try:
          response = openai_client.chat.completions.create(model="gpt-4o", messages=messages)
          category = response.choices[0].message.content
          return category
      except Exception as e:
          print(f"Error categorizing text: {str(e)}")
          return None
  \<close>
\<close>

definition categorize_messages :: "string \<Rightarrow> string list \<Rightarrow> (string \<times> string) list" where
  "categorize_messages text cats =
     [(''system'',
       ''You are an expert in LLMs, and you will be given text that corresponds to an article in OpenAI's documentation.''
       @ ''\<newline>         Categorize the document into one of these categories: ''
       @ join '', '' cats
       @ ''. Only respond with the category name and nothing else.''),
      (''user'', text)]"

definition categorize_text ::
  "'v services \<Rightarrow> string \<Rightarrow> string list \<Rightarrow> log_line list \<times> string option" where
  "categorize_text sv text cats =
     (case chat_completions_create sv ''gpt-4o'' (categorize_messages text cats) of
        Inr category \<Rightarrow> ([], Some category)
      | Inl e \<Rightarrow> ([Error_categorizing_text e], None))"


subsection \<open>\<^verbatim>\<open>process_file\<close>\<close>

text \<open>\<^verbatim>\<open>os.path.basename\<close> (POSIX): what follows the last slash.\<close>

definition basename :: "string \<Rightarrow> string" where
  "basename p = rev (takeWhile (\<lambda>c. c \<noteq> CHR ''/'') (rev p))"

definition endswith :: "string \<Rightarrow> string \<Rightarrow> bool" where
  "endswith s suffix =
     (length suffix \<le> length s \<and> drop (length s - length suffix) s = suffix)"

text \<open>\<^verbatim>\<open>str\<close> of an integer, for the f-string \<^verbatim>\<open>f"{idx}_{i}"\<close>.\<close>

fun str_nat :: "nat \<Rightarrow> string" where
  "str_nat n =
     (if n < 10 then [''0123456789'' ! n]
      else str_nat (n div 10) @ [''0123456789'' ! (n mod 10)])"

declare str_nat.simps [simp del]

definition str_int :: "int \<Rightarrow> string" where
  "str_int i = (if i < 0 then ''-'' @ str_nat (nat (- i)) else str_nat (nat i))"

text \<open>\<^verbatim>\<open>xs[i]\<close> for an index that is not negative: out of range raises.\<close>

definition subscript :: "'a list \<Rightarrow> nat \<Rightarrow> py_error + 'a" where
  "subscript xs i = (if i < length xs then Inr (xs ! i) else Inl IndexError)"

text \<open>
  \<^verbatim>\<open>
  def extract_text_from_pdf(pdf_path):
      reader = PdfReader(pdf_path)
      text = ""
      for page in reader.pages:
          text += page.extract_text()
      return text
  \<close>
\<close>

definition extract_text_from_pdf :: "'v services \<Rightarrow> string \<Rightarrow> py_error + string" where
  "extract_text_from_pdf sv pdf_path =
     (case pdf_pages sv pdf_path of
        Inl e \<Rightarrow> Inl e
      | Inr pages \<Rightarrow> Inr (foldl (\<lambda>text page. text @ page) [] pages))"

text \<open>The row dictionaries of \<^verbatim>\<open>process_file\<close>; the key \<^verbatim>\<open>id\<close> is the field
  \<open>row_id\<close>, and so on.\<close>

record row =
  row_id :: string
  row_vector_id :: string
  row_title :: string
  row_text :: string
  row_title_vector :: string
  row_content_vector :: string
  row_category :: "string option"

text \<open>
  \<^verbatim>\<open>
  def process_file(file_path, idx, categories, embeddings_model):
      file_name = os.path.basename(file_path)
      print(f"Processing file {idx + 1}: {file_name}")
      if file_name.endswith('.txt'):
          with open(file_path, 'r', encoding='utf-8') as file:
              text = file.read()
      elif file_name.endswith('.pdf'):
          text = extract_text_from_pdf(file_path)
      title = file_name
      title_vectors, title_text = len_safe_get_embedding(title, embeddings_model)
      print(f"Generated title embeddings for {file_name}")
      content_vectors, content_text = len_safe_get_embedding(text, embeddings_model)
      print(f"Generated content embeddings for {file_name}")
      category = categorize_text(' '.join(content_text), categories)
      print(f"Categorized {file_name} as {category}")
      data = []
      for i, content_vector in enumerate(content_vectors):
          data.append({
              "id": f"{idx}_{i}",
              "vector_id": f"{idx}_{i}",
              "title": title_text[0],
              "text": content_text[i],
              "title_vector": json.dumps(title_vectors[0]),  # Assuming title is short and has only one chunk
              "content_vector": json.dumps(content_vector),
              "category": category
          })
          print(f"Appended data for chunk {i + 1}/{len(content_vectors)} of {file_name}")
      return data
  \<close>
  The function returns what it printed and either the rows or the exception that left
  it. A file name that ends in neither \<^verbatim>\<open>.txt\<close> nor \<^verbatim>\<open>.pdf\<close> leaves the variable
  \<^verbatim>\<open>text\<close> unbound (\<open>None\<close> in \<open>read_document\<close>), and its first use raises.
\<close>

definition read_document :: "'v services \<Rightarrow> string \<Rightarrow> string \<Rightarrow> py_error + string option" where
  "read_document sv file_path file_name =
     (if endswith file_name ''.txt'' then
        (case read_text sv file_path of Inl e \<Rightarrow> Inl e | Inr text \<Rightarrow> Inr (Some text))
      else if endswith file_name ''.pdf'' then
        (case extract_text_from_pdf sv file_path of Inl e \<Rightarrow> Inl e | Inr text \<Rightarrow> Inr (Some text))
      else Inr None)"

text \<open>The loop over \<^verbatim>\<open>enumerate(content_vectors)\<close>; the entries of the dictionary are
  evaluated in the order they are written.\<close>

fun append_rows ::
  "'v services \<Rightarrow> int \<Rightarrow> string \<Rightarrow> 'v list \<Rightarrow> string list \<Rightarrow> string list \<Rightarrow> string option
     \<Rightarrow> nat \<Rightarrow> (nat \<times> 'v) list \<Rightarrow> row list \<Rightarrow> log_line list
     \<Rightarrow> log_line list \<times> (py_error + row list)" where
  "append_rows sv idx file_name title_vectors title_text content_text cat n_vectors [] data out =
     (out, Inr data)"
| "append_rows sv idx file_name title_vectors title_text content_text cat n_vectors
     ((i, content_vector) # rest) data out =
     (case subscript title_text 0 of
        Inl e \<Rightarrow> (out, Inl e)
      | Inr title0 \<Rightarrow>
          (case subscript content_text i of
             Inl e \<Rightarrow> (out, Inl e)
           | Inr text_i \<Rightarrow>
               (case subscript title_vectors 0 of
                  Inl e \<Rightarrow> (out, Inl e)
                | Inr title_vector0 \<Rightarrow>
                    append_rows sv idx file_name title_vectors title_text content_text cat n_vectors rest
                      (data @
                        [\<lparr>row_id = str_int idx @ ''_'' @ str_nat i,
                          row_vector_id = str_int idx @ ''_'' @ str_nat i,
                          row_title = title0,
                          row_text = text_i,
                          row_title_vector = json_dumps sv title_vector0,
                          row_content_vector = json_dumps sv content_vector,
                          row_category = cat\<rparr>])
                      (out @ [Appended_data (i + 1) n_vectors file_name]))))"

definition enumerate_list :: "'a list \<Rightarrow> (nat \<times> 'a) list" where
  "enumerate_list xs = zip [0..<length xs] xs"

definition process_file ::
  "'v services \<Rightarrow> string \<Rightarrow> int \<Rightarrow> string list \<Rightarrow> string
     \<Rightarrow> log_line list \<times> (py_error + row list)" where
  "process_file sv file_path idx cats model =
     (let file_name = basename file_path;
          out1 = [Processing_file (idx + 1) file_name]
      in case read_document sv file_path file_name of
           Inl e \<Rightarrow> (out1, Inl e)
         | Inr text \<Rightarrow>
             (case len_safe_get_embedding sv file_name model
                     EMBEDDING_CTX_LENGTH EMBEDDING_ENCODING of
                Inl e \<Rightarrow> (out1, Inl e)
              | Inr (title_vectors, title_text) \<Rightarrow>
                  (let out2 = out1 @ [Generated_title_embeddings file_name]
                   in case text of
                        None \<Rightarrow> (out2, Inl (UnboundLocalError ''text''))
                      | Some text \<Rightarrow>
                          (case len_safe_get_embedding sv text model
                                  EMBEDDING_CTX_LENGTH EMBEDDING_ENCODING of
                             Inl e \<Rightarrow> (out2, Inl e)
                           | Inr (content_vectors, content_text) \<Rightarrow>
                               (let out3 = out2 @ [Generated_content_embeddings file_name];
                                    (out_c, cat) = categorize_text sv (join '' '' content_text) cats;
                                    out4 = out3 @ out_c @ [Categorized file_name cat]
                                in append_rows sv idx file_name title_vectors title_text
                                     content_text cat (length content_vectors)
                                     (enumerate_list content_vectors) [] out4)))))"

subsection \<open>The thread-pool loop over the files\<close>

text \<open>
  \<^verbatim>\<open>
  data = []
  with concurrent.futures.ThreadPoolExecutor() as executor:
      futures = {executor.submit(process_file, file_path, idx, categories, embeddings_model): idx
                 for idx, file_path in enumerate(files)}
      for future in concurrent.futures.as_completed(futures):
          try:
              result = future.result()
              data.extend(result)
          except Exception as e:
              print(f"Error processing file: {str(e)}")
  \<close>
  Every file gets a future. The workers share nothing and the services are functions, so
  a future's outcome is the value of its \<open>process_file\<close> call, whenever it runs. What the
  scheduler decides is the order in which \<^verbatim>\<open>as_completed\<close> hands the futures to the
  main thread: the parameter \<open>completed\<close>, the futures' indices in that order. The loop
  returns \<^verbatim>\<open>data\<close> and what the main thread printed.
\<close>

definition submit_all ::
  "'v services \<Rightarrow> string list \<Rightarrow> string list \<Rightarrow> string
     \<Rightarrow> (log_line list \<times> (py_error + row list)) list" where
  "submit_all sv files cats model =
     map (\<lambda>(idx, file_path). process_file sv file_path (int idx) cats model)
       (enumerate_list files)"

fun collect ::
  "(log_line list \<times> (py_error + row list)) list \<Rightarrow> nat list \<Rightarrow> row list \<Rightarrow> log_line list
     \<Rightarrow> row list \<times> log_line list" where
  "collect futures [] data out = (data, out)"
| "collect futures (k # rest) data out =
     (case snd (futures ! k) of
        Inr result \<Rightarrow> collect futures rest (data @ result) out
      | Inl e \<Rightarrow> collect futures rest data (out @ [Error_processing_file e]))"

definition process_files ::
  "'v services \<Rightarrow> string list \<Rightarrow> string list \<Rightarrow> string \<Rightarrow> nat list
     \<Rightarrow> row list \<times> log_line list" where
  "process_files sv files cats model completed =
     collect (submit_all sv files cats model) completed [] []"

text \<open>The orders \<^verbatim>\<open>as_completed\<close> can produce: every future once.\<close>

definition completion_order :: "nat \<Rightarrow> nat list \<Rightarrow> bool" where
  "completion_order n completed = (distinct completed \<and> set completed = {..<n})"


subsection \<open>The batches of a token list\<close>

text \<open>The \<^verbatim>\<open>while\<close> loop of \<^verbatim>\<open>batched\<close> run to its end from an iterator that
  still holds \<open>it\<close>: the list of all batches it yields. The generators above produce
  exactly this list, one element per \<^verbatim>\<open>next\<close> (\<open>iterate_suspended\<close> below).\<close>

function chunks_of :: "nat \<Rightarrow> 'a list \<Rightarrow> 'a list list" where
  "chunks_of n it =
     (let batch = take n it in
      if batch = [] then [] else batch # chunks_of n (drop n it))"
  by pat_completeness auto
termination
  by (relation "measure (\<lambda>(n, it). length it)") auto

declare chunks_of.simps [simp del]

lemma chunks_of_Nil [simp]: "chunks_of n [] = []"
  by (simp add: chunks_of.simps)

lemma chunks_of_0 [simp]: "chunks_of 0 it = []"
  by (simp add: chunks_of.simps)

lemma chunks_of_step:
  "0 < n \<Longrightarrow> it \<noteq> [] \<Longrightarrow> chunks_of n it = take n it # chunks_of n (drop n it)"
  by (subst chunks_of.simps) (simp add: Let_def)

lemma concat_chunks_of: "0 < n \<Longrightarrow> concat (chunks_of n it) = it"
proof (induction n it rule: chunks_of.induct)
  case (1 n it)
  show ?case
  proof (cases "it = []")
    case True
    then show ?thesis by simp
  next
    case False
    with 1 show ?thesis by (simp add: chunks_of_step)
  qed
qed

lemma chunk_sizes: "c \<in> set (chunks_of n it) \<Longrightarrow> 1 \<le> length c \<and> length c \<le> n"
proof (induction n it rule: chunks_of.induct)
  case (1 n it)
  show ?case
  proof (cases "0 < n \<and> it \<noteq> []")
    case True
    with 1 show ?thesis by (auto simp: chunks_of_step Suc_le_eq)
  next
    case False
    with 1 show ?thesis by auto
  qed
qed

lemma chunks_of_full:
  "Suc i < length (chunks_of n it) \<Longrightarrow> length (chunks_of n it ! i) = n"
proof (induction n it arbitrary: i rule: chunks_of.induct)
  case (1 n it)
  show ?case
  proof (cases "0 < n \<and> it \<noteq> []")
    case True
    then have step: "chunks_of n it = take n it # chunks_of n (drop n it)"
      by (simp add: chunks_of_step)
    from "1.prems" step have more: "chunks_of n (drop n it) \<noteq> []" by auto
    then have "drop n it \<noteq> []" by auto
    then have full: "length (take n it) = n" by simp
    show ?thesis
    proof (cases i)
      case 0
      with step full show ?thesis by simp
    next
      case (Suc j)
      with "1.prems" step have "Suc j < length (chunks_of n (drop n it))" by simp
      with True have "length (chunks_of n (drop n it) ! j) = n"
        using "1.IH" [of "take n it" j] by simp
      with step Suc show ?thesis by simp
    qed
  next
    case False
    with "1.prems" show ?thesis by auto
  qed
qed

lemma chunks_of_1: "chunks_of (Suc 0) it = map (\<lambda>t. [t]) it"
proof (induction it)
  case Nil
  then show ?case by simp
next
  case (Cons a it)
  then show ?case by (simp add: chunks_of_step)
qed

lemma length_chunks_of: "0 < n \<Longrightarrow> length (chunks_of n it) = (length it + n - 1) div n"
proof (induction n it rule: chunks_of.induct)
  case (1 n it)
  show ?case
  proof (cases "it = []")
    case True
    with "1.prems" show ?thesis by simp
  next
    case False
    with "1.prems" have step: "chunks_of n it = take n it # chunks_of n (drop n it)"
      by (rule chunks_of_step)
    from False "1.prems" have "take n it \<noteq> []" by simp
    with "1.prems" have ih: "length (chunks_of n (drop n it)) = (length it - n + n - 1) div n"
      using "1.IH" [of "take n it"] by simp
    from False have "length it + n - 1 = (length it - 1) + n"
      by (cases it) simp_all
    then have "(length it + n - 1) div n = ((length it - 1) + n) div n"
      by (rule arg_cong)
    also have "\<dots> = Suc ((length it - 1) div n)"
      using "1.prems" by simp
    finally have rhs: "(length it + n - 1) div n = Suc ((length it - 1) div n)" .
    have "(length it - n + n - 1) div n = (length it - 1) div n"
    proof (cases "n \<le> length it")
      case True
      then have "length it - n + n - 1 = length it - 1" by simp
      then show ?thesis by (rule arg_cong)
    next
      case F: False
      then have "length it - n + n - 1 = n - 1" by simp
      then have "(length it - n + n - 1) div n = (n - 1) div n" by (rule arg_cong)
      also have "\<dots> = 0" using "1.prems" by simp
      also have "0 = (length it - 1) div n" using F by simp
      finally show ?thesis .
    qed
    then show ?thesis unfolding step rhs using ih by simp
  qed
qed

lemma chunks_of_nth:
  "0 < n \<Longrightarrow> k < length (chunks_of n it) \<Longrightarrow> chunks_of n it ! k = take n (drop (k * n) it)"
proof (induction n it arbitrary: k rule: chunks_of.induct)
  case (1 n it)
  show ?case
  proof (cases "it = []")
    case True
    with "1.prems" show ?thesis by simp
  next
    case False
    with "1.prems" have step: "chunks_of n it = take n it # chunks_of n (drop n it)"
      by (simp add: chunks_of_step)
    show ?thesis
    proof (cases k)
      case 0
      with step show ?thesis by simp
    next
      case (Suc j)
      with "1.prems" step have "j < length (chunks_of n (drop n it))" by simp
      with False "1.prems" have "chunks_of n (drop n it) ! j = take n (drop (j * n) (drop n it))"
        using "1.IH" [of "take n it" j] by simp
      with step Suc show ?thesis by (simp add: add.commute)
    qed
  qed
qed

subsection \<open>What the generators yield\<close>

lemma iterate_suspended_aux:
  "nat n = m \<Longrightarrow> 0 \<le> n \<Longrightarrow> n \<le> sys_maxsize \<Longrightarrow>
   iterate sv (Chunked_Delegating (Batched_Suspended it n)) = (Inr (chunks_of m it), Chunked_Finished)"
proof (induction m it rule: chunks_of.induct)
  case (1 m it)
  show ?case
  proof (cases "take m it = []")
    case True
    with "1.prems" show ?thesis
      by (subst iterate.simps, subst chunks_of.simps)
         (simp add: yield_from_def batched_resume_def islice_def)
  next
    case False
    with "1.prems" have
      "iterate sv (Chunked_Delegating (Batched_Suspended (drop m it) n)) =
         (Inr (chunks_of m (drop m it)), Chunked_Finished)"
      using "1.IH" [of "take m it"] by simp
    with False "1.prems" show ?thesis
      by (subst iterate.simps, subst chunks_of.simps)
         (simp add: yield_from_def batched_resume_def islice_def)
  qed
qed

lemma iterate_suspended:
  "0 \<le> n \<Longrightarrow> n \<le> sys_maxsize \<Longrightarrow>
   iterate sv (Chunked_Delegating (Batched_Suspended it n)) =
     (Inr (chunks_of (nat n) it), Chunked_Finished)"
  by (rule iterate_suspended_aux) simp_all

lemma iterate_finished: "iterate sv Chunked_Finished = (Inr [], Chunked_Finished)"
  by (subst iterate.simps) simp

lemma iterate_created:
  assumes "get_encoding sv encoding_name = Inr encoding"
    and "encode encoding text = Inr tokens"
    and "1 \<le> chunk_length" and "chunk_length \<le> sys_maxsize"
  shows "iterate sv (chunked_tokens text chunk_length encoding_name) =
           (Inr (chunks_of (nat chunk_length) tokens), Chunked_Finished)"
proof (cases "take (nat chunk_length) tokens = []")
  case True
  with assms show ?thesis
    by (subst iterate.simps, subst chunks_of.simps)
       (simp add: chunked_tokens_def batched_def yield_from_def batched_resume_def islice_def)
next
  case False
  with assms show ?thesis
    by (subst iterate.simps, subst chunks_of.simps)
       (simp add: chunked_tokens_def batched_def yield_from_def batched_resume_def islice_def
          iterate_suspended)
qed

lemma iterate_created_too_large:
  assumes "get_encoding sv encoding_name = Inr encoding"
    and "encode encoding text = Inr tokens"
    and "sys_maxsize < chunk_length"
  shows "iterate sv (chunked_tokens text chunk_length encoding_name) =
           (Inl (ValueError
              ''Stop argument for islice() must be None or an integer: 0 <= x <= sys.maxsize.''),
            Chunked_Finished)"
  using assms
  by (subst iterate.simps)
     (simp add: chunked_tokens_def batched_def yield_from_def batched_resume_def islice_def
        sys_maxsize_def)

lemma iterate_created_invalid:
  assumes "get_encoding sv encoding_name = Inr encoding"
    and "encode encoding text = Inr tokens"
    and "chunk_length < 1"
  shows "iterate sv (chunked_tokens text chunk_length encoding_name) =
           (Inl (ValueError ''n must be at least one''), Chunked_Finished)"
  using assms
  by (subst iterate.simps) (simp add: chunked_tokens_def batched_def yield_from_def)

lemma iterate_leaves_finished: "snd (iterate sv g) = Chunked_Finished"
proof (induction sv g rule: iterate.induct)
  case (1 sv g)
  show ?case
  proof (cases "chunked_tokens_next sv g")
    case (Pair s g')
    show ?thesis
    proof (cases s)
      case (Yield chunk)
      from Pair Yield have "snd (iterate sv g') = Chunked_Finished"
        by (intro "1.IH") simp_all
      with Pair Yield show ?thesis
        by (subst iterate.simps) (auto split: prod.splits sum.splits)
    next
      case StopIteration
      with Pair show ?thesis
        by (cases g; subst iterate.simps)
           (auto simp: yield_from_def batched_resume_def islice_def
              split: sum.splits prod.splits step.splits if_splits)
    next
      case (Raise e)
      with Pair show ?thesis
        by (cases g; subst iterate.simps)
           (auto simp: yield_from_def batched_resume_def islice_def
              split: sum.splits prod.splits step.splits if_splits)
    qed
  qed
qed


lemma iterate_created_cases:
  "iterate sv (chunked_tokens text chunk_length encoding_name) =
     (case get_encoding sv encoding_name of
        Inl e \<Rightarrow> (Inl e, Chunked_Finished)
      | Inr encoding \<Rightarrow>
          (case encode encoding text of
             Inl e \<Rightarrow> (Inl e, Chunked_Finished)
           | Inr tokens \<Rightarrow>
               if chunk_length < 1
               then (Inl (ValueError ''n must be at least one''), Chunked_Finished)
               else if sys_maxsize < chunk_length
               then (Inl (ValueError
                 ''Stop argument for islice() must be None or an integer: 0 <= x <= sys.maxsize.''),
                     Chunked_Finished)
               else (Inr (chunks_of (nat chunk_length) tokens), Chunked_Finished)))"
proof (cases "get_encoding sv encoding_name")
  case (Inl e)
  then show ?thesis by (subst iterate.simps) (simp add: chunked_tokens_def)
next
  case (Inr encoding)
  note enc = this
  show ?thesis
  proof (cases "encode encoding text")
    case (Inl e)
    with enc show ?thesis by (subst iterate.simps) (simp add: chunked_tokens_def)
  next
    case (Inr tokens)
    with enc show ?thesis
      by (cases "chunk_length < 1"; cases "sys_maxsize < chunk_length")
         (simp_all add: iterate_created iterate_created_invalid iterate_created_too_large)
  qed
qed

subsection \<open>The embedding loop over the list of chunks\<close>

text \<open>The body of the \<^verbatim>\<open>for\<close> loop of \<^verbatim>\<open>len_safe_get_embedding\<close>, run over a list of
  chunks: \<open>len_safe_get_embedding_cases\<close> shows that the loop over the generator is this
  loop over the chunks the generator yields.\<close>

fun embed_chunks ::
  "'v services \<Rightarrow> string \<Rightarrow> string \<Rightarrow> token list list \<Rightarrow> 'v list \<Rightarrow> string list
     \<Rightarrow> py_error + ('v list \<times> string list)" where
  "embed_chunks sv model encoding_name [] chunk_embeddings chunk_texts =
     Inr (chunk_embeddings, chunk_texts)"
| "embed_chunks sv model encoding_name (chunk # chunks) chunk_embeddings chunk_texts =
     (case generate_embeddings sv chunk model of
        Inl e \<Rightarrow> Inl e
      | Inr embedding \<Rightarrow>
          (case get_encoding sv encoding_name of
             Inl e \<Rightarrow> Inl e
           | Inr encoding \<Rightarrow>
               embed_chunks sv model encoding_name chunks
                 (chunk_embeddings @ [embedding]) (chunk_texts @ [decode encoding chunk])))"

lemma embedding_loop_suspended_aux:
  "nat n = m \<Longrightarrow> 0 \<le> n \<Longrightarrow> n \<le> sys_maxsize \<Longrightarrow>
   embedding_loop sv model encoding_name (Chunked_Delegating (Batched_Suspended it n)) es ts =
     embed_chunks sv model encoding_name (chunks_of m it) es ts"
proof (induction m it arbitrary: es ts rule: chunks_of.induct)
  case (1 m it)
  show ?case
  proof (cases "take m it = []")
    case True
    with "1.prems" show ?thesis
      by (subst embedding_loop.simps, subst chunks_of.simps)
         (simp add: yield_from_def batched_resume_def islice_def)
  next
    case False
    have ih: "embedding_loop sv model encoding_name
                (Chunked_Delegating (Batched_Suspended (drop m it) n)) es' ts' =
              embed_chunks sv model encoding_name (chunks_of m (drop m it)) es' ts'" for es' ts'
      using "1.IH" [of "take m it" es' ts'] False "1.prems" by simp
    from False "1.prems" show ?thesis
      by (subst embedding_loop.simps, subst chunks_of.simps)
         (simp add: yield_from_def batched_resume_def islice_def ih split: sum.splits)
  qed
qed

lemma embedding_loop_suspended:
  "0 \<le> n \<Longrightarrow> n \<le> sys_maxsize \<Longrightarrow>
   embedding_loop sv model encoding_name (Chunked_Delegating (Batched_Suspended it n)) es ts =
     embed_chunks sv model encoding_name (chunks_of (nat n) it) es ts"
  by (rule embedding_loop_suspended_aux) simp_all

lemma embedding_loop_created:
  assumes "get_encoding sv encoding_name = Inr encoding"
    and "encode encoding text = Inr tokens"
    and "1 \<le> max_tokens" and "max_tokens \<le> sys_maxsize"
  shows "embedding_loop sv model encoding_name (chunked_tokens text max_tokens encoding_name) es ts =
           embed_chunks sv model encoding_name (chunks_of (nat max_tokens) tokens) es ts"
proof (cases "take (nat max_tokens) tokens = []")
  case True
  with assms show ?thesis
    by (subst embedding_loop.simps, subst chunks_of.simps)
       (simp add: chunked_tokens_def batched_def yield_from_def batched_resume_def islice_def)
next
  case False
  with assms show ?thesis
    by (subst embedding_loop.simps, subst chunks_of.simps)
       (simp add: chunked_tokens_def batched_def yield_from_def batched_resume_def islice_def
          embedding_loop_suspended split: sum.splits)
qed

lemma len_safe_get_embedding_cases:
  "len_safe_get_embedding sv text model max_tokens encoding_name =
     (case fst (iterate sv (chunked_tokens text max_tokens encoding_name)) of
        Inl e \<Rightarrow> Inl e
      | Inr chunks \<Rightarrow> embed_chunks sv model encoding_name chunks [] [])"
proof (cases "get_encoding sv encoding_name")
  case (Inl e)
  then show ?thesis
    by (simp add: iterate_created_cases len_safe_get_embedding_def)
       (subst embedding_loop.simps, simp add: chunked_tokens_def)
next
  case (Inr encoding)
  note enc = this
  show ?thesis
  proof (cases "encode encoding text")
    case (Inl e)
    with enc show ?thesis
      by (simp add: iterate_created_cases len_safe_get_embedding_def)
         (subst embedding_loop.simps, simp add: chunked_tokens_def)
  next
    case (Inr tokens)
    note toks = this
    show ?thesis
    proof (cases "max_tokens < 1")
      case True
      with enc toks show ?thesis
        by (simp add: iterate_created_cases len_safe_get_embedding_def)
           (subst embedding_loop.simps, simp add: chunked_tokens_def batched_def yield_from_def)
    next
      case False
      show ?thesis
      proof (cases "sys_maxsize < max_tokens")
        case True
        with False enc toks show ?thesis
          by (simp add: iterate_created_cases len_safe_get_embedding_def)
             (subst embedding_loop.simps,
              simp add: chunked_tokens_def batched_def yield_from_def batched_resume_def
                islice_def)
      next
        case F: False
        with False enc toks show ?thesis
          by (simp add: iterate_created_cases len_safe_get_embedding_def
                embedding_loop_created)
      qed
    qed
  qed
qed

lemma embed_chunks_Inr:
  assumes "get_encoding sv encoding_name = Inr encoding"
    and "embed_chunks sv model encoding_name chunks es ts = Inr (es', ts')"
  shows "\<exists>vs. map (embeddings_create sv model) chunks = map Inr vs
            \<and> es' = es @ vs \<and> ts' = ts @ map (decode encoding) chunks"
  using assms
proof (induction chunks arbitrary: es ts)
  case Nil
  then show ?case by simp
next
  case (Cons chunk chunks)
  from Cons.prems obtain v where v: "embeddings_create sv model chunk = Inr v"
    and rest: "embed_chunks sv model encoding_name chunks (es @ [v])
                 (ts @ [decode encoding chunk]) = Inr (es', ts')"
    by (auto simp: generate_embeddings_def split: sum.splits)
  from Cons.IH [OF Cons.prems(1) rest] obtain vs where
    "map (embeddings_create sv model) chunks = map Inr vs"
    "es' = (es @ [v]) @ vs" "ts' = (ts @ [decode encoding chunk]) @ map (decode encoding) chunks"
    by blast
  with v show ?case by (intro exI [of _ "v # vs"]) simp
qed

lemma embed_chunks_ok:
  assumes "get_encoding sv encoding_name = Inr encoding"
    and "map (embeddings_create sv model) chunks = map Inr vs"
  shows "embed_chunks sv model encoding_name chunks es ts =
           Inr (es @ vs, ts @ map (decode encoding) chunks)"
  using assms
proof (induction chunks arbitrary: es ts vs)
  case Nil
  then show ?case by simp
next
  case (Cons chunk chunks)
  from Cons.prems(2) obtain v vs' where vs: "vs = v # vs'"
    and v: "embeddings_create sv model chunk = Inr v"
    and rest: "map (embeddings_create sv model) chunks = map Inr vs'"
    by (cases vs) auto
  from Cons.IH [OF Cons.prems(1) rest] v vs Cons.prems(1) show ?case
    by (simp add: generate_embeddings_def)
qed

lemma all_embedded:
  "\<forall>c\<in>set chunks. \<exists>v. f c = Inr v \<Longrightarrow> \<exists>vs. map f chunks = map Inr vs"
proof (induction chunks)
  case Nil
  then show ?case by simp
next
  case (Cons c chunks)
  then obtain v vs where "f c = Inr v" "map f chunks = map Inr vs" by auto
  then have "map f (c # chunks) = map Inr (v # vs)" by simp
  then show ?case by blast
qed

lemma chunks_of_single:
  "0 < n \<Longrightarrow> (length (chunks_of n it) = 1) = (it \<noteq> [] \<and> length it \<le> n)"
proof (cases "it = []")
  case True
  then show ?thesis by simp
next
  case False
  assume n: "0 < n"
  from n False have step: "chunks_of n it = take n it # chunks_of n (drop n it)"
    by (rule chunks_of_step)
  show ?thesis
  proof (cases "length it \<le> n")
    case True
    with step False show ?thesis by simp
  next
    case F: False
    then have "drop n it \<noteq> []" by simp
    with n have "chunks_of n (drop n it) \<noteq> []"
      by (simp add: chunks_of_step)
    with step F show ?thesis by simp
  qed
qed

lemma iterate_Inr_D:
  assumes "fst (iterate sv (chunked_tokens text max_tokens encoding_name)) = Inr chunks"
  shows "\<exists>encoding tokens. get_encoding sv encoding_name = Inr encoding
           \<and> encode encoding text = Inr tokens \<and> 1 \<le> max_tokens
           \<and> max_tokens \<le> sys_maxsize
           \<and> chunks = chunks_of (nat max_tokens) tokens"
  using assms by (auto simp: iterate_created_cases split: sum.splits if_splits)

subsection \<open>The rows of a document\<close>

text \<open>The dictionary that \<^verbatim>\<open>process_file\<close> appends for chunk \<open>i\<close>, and the outcome
  of its whole loop over the content vectors: no row for a document without content
  chunks, an \<^verbatim>\<open>IndexError\<close> from \<^verbatim>\<open>title_text[0]\<close> when the title has no chunk, one
  row per content chunk otherwise (\<open>process_file_result\<close>).\<close>

definition chunk_row ::
  "'v services \<Rightarrow> int \<Rightarrow> string \<Rightarrow> 'v \<Rightarrow> string option \<Rightarrow> nat \<Rightarrow> string \<Rightarrow> 'v \<Rightarrow> row" where
  "chunk_row sv idx title0 title_vector0 cat i text_i content_vector =
     \<lparr>row_id = str_int idx @ ''_'' @ str_nat i,
      row_vector_id = str_int idx @ ''_'' @ str_nat i,
      row_title = title0,
      row_text = text_i,
      row_title_vector = json_dumps sv title_vector0,
      row_content_vector = json_dumps sv content_vector,
      row_category = cat\<rparr>"

definition document_rows ::
  "'v services \<Rightarrow> int \<Rightarrow> 'v list \<Rightarrow> string list \<Rightarrow> 'v list \<Rightarrow> string list \<Rightarrow> string option
     \<Rightarrow> py_error + row list" where
  "document_rows sv idx title_vectors title_text content_vectors content_text cat =
     (if content_vectors = [] then Inr []
      else if title_text = [] then Inl IndexError
      else Inr (map (\<lambda>i. chunk_row sv idx (title_text ! 0) (title_vectors ! 0) cat i
                          (content_text ! i) (content_vectors ! i))
                 [0..<length content_vectors]))"

lemma append_rows_ok:
  assumes "title_text \<noteq> []" and "title_vectors \<noteq> []"
    and "\<forall>(i, v)\<in>set ivs. i < length content_text"
  shows "append_rows sv idx file_name title_vectors title_text content_text cat n ivs data out =
           (out @ map (\<lambda>(i, v). Appended_data (i + 1) n file_name) ivs,
            Inr (data @ map (\<lambda>(i, v). chunk_row sv idx (title_text ! 0) (title_vectors ! 0) cat i
                                        (content_text ! i) v) ivs))"
  using assms
proof (induction ivs arbitrary: data out)
  case Nil
  then show ?case by simp
next
  case (Cons iv ivs)
  obtain i v where iv: "iv = (i, v)" by (cases iv)
  with Cons.prems have i: "i < length content_text" by simp
  from Cons.prems have rest: "\<forall>(i, v)\<in>set ivs. i < length content_text" by simp
  show ?case
    unfolding iv
    using Cons.IH [OF Cons.prems(1,2) rest] i Cons.prems(1,2)
    by (simp add: subscript_def chunk_row_def)
qed

lemma append_rows_no_title:
  "ivs \<noteq> [] \<Longrightarrow>
   append_rows sv idx file_name title_vectors [] content_text cat n ivs data out =
     (out, Inl IndexError)"
  by (cases ivs) (auto simp: subscript_def)

lemma append_rows_log:
  "\<exists>more. fst (append_rows sv idx file_name title_vectors title_text content_text cat n ivs data out)
      = out @ more"
proof (induction ivs arbitrary: data out)
  case Nil
  then show ?case by simp
next
  case (Cons iv ivs)
  obtain i v where iv: "iv = (i, v)" by (cases iv)
  show ?case
    unfolding iv
  proof (cases "subscript title_text 0")
    case (Inl e)
    then show "\<exists>more. fst (append_rows sv idx file_name title_vectors title_text content_text cat n
                 ((i, v) # ivs) data out) = out @ more" by simp
  next
    case t: (Inr title0)
    show "\<exists>more. fst (append_rows sv idx file_name title_vectors title_text content_text cat n
                 ((i, v) # ivs) data out) = out @ more"
    proof (cases "subscript content_text i")
      case (Inl e)
      with t show ?thesis by simp
    next
      case c: (Inr text_i)
      show ?thesis
      proof (cases "subscript title_vectors 0")
        case (Inl e)
        with t c show ?thesis by simp
      next
        case (Inr title_vector0)
        from Cons.IH [of "data @ [chunk_row sv idx title0 title_vector0 cat i text_i v]"
            "out @ [Appended_data (i + 1) n file_name]"]
        obtain more where
          "fst (append_rows sv idx file_name title_vectors title_text content_text cat n ivs
                 (data @ [chunk_row sv idx title0 title_vector0 cat i text_i v])
                 (out @ [Appended_data (i + 1) n file_name]))
             = (out @ [Appended_data (i + 1) n file_name]) @ more" by blast
        with t c Inr show ?thesis by (simp add: chunk_row_def)
      qed
    qed
  qed
qed

lemma len_safe_lengths:
  assumes "len_safe_get_embedding sv text model max_tokens encoding_name = Inr (vectors, texts)"
  shows "length vectors = length texts"
proof -
  from assms obtain chunks where
    it: "fst (iterate sv (chunked_tokens text max_tokens encoding_name)) = Inr chunks"
    and em: "embed_chunks sv model encoding_name chunks [] [] = Inr (vectors, texts)"
    by (auto simp: len_safe_get_embedding_cases split: sum.splits)
  from iterate_Inr_D [OF it] obtain encoding where
    "get_encoding sv encoding_name = Inr encoding" by blast
  from embed_chunks_Inr [OF this em] obtain vs where
    "map (embeddings_create sv model) chunks = map Inr vs" "vectors = vs"
    "texts = map (decode encoding) chunks" by auto
  then show ?thesis by (metis length_map)
qed

lemma enumerate_list_map:
  "map f (enumerate_list xs) = map (\<lambda>i. f (i, xs ! i)) [0..<length xs]"
  by (rule nth_equalityI) (simp_all add: enumerate_list_def)

lemma process_file_result:
  "snd (process_file sv file_path idx cats model) =
     (case read_document sv file_path (basename file_path) of
        Inl e \<Rightarrow> Inl e
      | Inr text \<Rightarrow>
          (case len_safe_get_embedding sv (basename file_path) model
                  EMBEDDING_CTX_LENGTH EMBEDDING_ENCODING of
             Inl e \<Rightarrow> Inl e
           | Inr (title_vectors, title_text) \<Rightarrow>
               (case text of
                  None \<Rightarrow> Inl (UnboundLocalError ''text'')
                | Some text \<Rightarrow>
                    (case len_safe_get_embedding sv text model
                            EMBEDDING_CTX_LENGTH EMBEDDING_ENCODING of
                       Inl e \<Rightarrow> Inl e
                     | Inr (content_vectors, content_text) \<Rightarrow>
                         document_rows sv idx title_vectors title_text content_vectors content_text
                           (snd (categorize_text sv (join '' '' content_text) cats))))))"
proof -
  have rows: "snd (append_rows sv idx file_name title_vectors title_text content_text cat
                 n (enumerate_list content_vectors) [] out) =
              document_rows sv idx title_vectors title_text content_vectors content_text cat"
    if tl: "length title_vectors = length title_text"
      and cl: "length content_vectors = length content_text"
    for file_name title_vectors title_text content_vectors content_text cat out n
  proof (cases "content_vectors = []")
    case True
    then show ?thesis by (simp add: document_rows_def enumerate_list_def)
  next
    case False
    then have ne: "enumerate_list content_vectors \<noteq> []"
      by (simp add: enumerate_list_def)
    show ?thesis
    proof (cases "title_text = []")
      case True
      with False ne show ?thesis
        by (simp add: document_rows_def append_rows_no_title)
    next
      case F: False
      with tl have tv: "title_vectors \<noteq> []" by auto
      have ix: "\<forall>(i, v)\<in>set (enumerate_list content_vectors). i < length content_text"
        using cl by (auto simp: enumerate_list_def dest: set_zip_leftD)
      show ?thesis
        using False F
        by (simp add: append_rows_ok [OF F tv ix] document_rows_def enumerate_list_map)
    qed
  qed
  show ?thesis
    by (auto simp: process_file_def Let_def
          split: sum.splits option.splits prod.splits
          intro!: rows dest: len_safe_lengths)
qed

subsection \<open>The outcome of \<^verbatim>\<open>process_file\<close> and of the loop over the files\<close>

lemma process_file_log:
  assumes "read_document sv file_path (basename file_path) = Inr (Some text)"
    and "len_safe_get_embedding sv (basename file_path) model
           EMBEDDING_CTX_LENGTH EMBEDDING_ENCODING = Inr (title_vectors, title_text)"
    and "len_safe_get_embedding sv text model
           EMBEDDING_CTX_LENGTH EMBEDDING_ENCODING = Inr (content_vectors, content_text)"
  shows "\<exists>more. fst (process_file sv file_path idx cats model) =
           [Processing_file (idx + 1) (basename file_path),
            Generated_title_embeddings (basename file_path),
            Generated_content_embeddings (basename file_path)]
           @ fst (categorize_text sv (join '' '' content_text) cats)
           @ [Categorized (basename file_path)
                (snd (categorize_text sv (join '' '' content_text) cats))]
           @ more"
proof -
  obtain out_c cat where c: "categorize_text sv (join '' '' content_text) cats = (out_c, cat)"
    by (cases "categorize_text sv (join '' '' content_text) cats")
  let ?out4 = "[Processing_file (idx + 1) (basename file_path),
            Generated_title_embeddings (basename file_path),
            Generated_content_embeddings (basename file_path)] @ out_c
            @ [Categorized (basename file_path) cat]"
  from append_rows_log [of sv idx "basename file_path" title_vectors title_text content_text cat
      "length content_vectors" "enumerate_list content_vectors" "[]" ?out4]
  obtain more where
    "fst (append_rows sv idx (basename file_path) title_vectors title_text content_text cat
           (length content_vectors) (enumerate_list content_vectors) [] ?out4) = ?out4 @ more"
    by blast
  with assms c show ?thesis
    by (simp add: process_file_def Let_def)
qed

lemma iterate_chat_update:
  "fst (iterate (sv\<lparr>chat_completions_create := chat\<rparr>) (chunked_tokens text n name)) =
   fst (iterate sv (chunked_tokens text n name))"
  by (simp add: iterate_created_cases)

lemma embed_chunks_chat_update:
  "embed_chunks (sv\<lparr>chat_completions_create := chat\<rparr>) model name chunks es ts =
   embed_chunks sv model name chunks es ts"
  by (induction chunks arbitrary: es ts)
     (simp_all add: generate_embeddings_def split: sum.splits)

lemma len_safe_chat_update:
  "len_safe_get_embedding (sv\<lparr>chat_completions_create := chat\<rparr>) text model n name =
   len_safe_get_embedding sv text model n name"
  by (simp add: len_safe_get_embedding_cases iterate_chat_update embed_chunks_chat_update
        split: sum.splits)

lemma read_document_chat_update:
  "read_document (sv\<lparr>chat_completions_create := chat\<rparr>) file_path file_name =
   read_document sv file_path file_name"
  by (simp add: read_document_def extract_text_from_pdf_def)

lemma document_rows_chat_update:
  "document_rows (sv\<lparr>chat_completions_create := chat\<rparr>) idx tvs tts cvs cts cat =
   document_rows sv idx tvs tts cvs cts cat"
  by (simp add: document_rows_def chunk_row_def)

lemma document_rows_category:
  "map_sum id (map (\<lambda>r. r\<lparr>row_category := None\<rparr>)) (document_rows sv idx tvs tts cvs cts cat) =
   document_rows sv idx tvs tts cvs cts None"
  by (simp add: document_rows_def chunk_row_def)

lemma len_safe_first_chunk:
  assumes "len_safe_get_embedding sv text model max_tokens encoding_name = Inr (vectors, texts)"
  shows "\<exists>encoding tokens. get_encoding sv encoding_name = Inr encoding
           \<and> encode encoding text = Inr tokens
           \<and> length vectors = (length tokens + nat max_tokens - 1) div nat max_tokens
           \<and> (texts \<noteq> [] \<longrightarrow>
                 tokens \<noteq> []
                 \<and> texts ! 0 = decode encoding (take (nat max_tokens) tokens)
                 \<and> generate_embeddings sv (take (nat max_tokens) tokens) model = Inr (vectors ! 0))"
proof -
  from assms obtain chunks where
    it: "fst (iterate sv (chunked_tokens text max_tokens encoding_name)) = Inr chunks"
    and em: "embed_chunks sv model encoding_name chunks [] [] = Inr (vectors, texts)"
    by (auto simp: len_safe_get_embedding_cases split: sum.splits)
  from iterate_Inr_D [OF it] obtain encoding tokens where
    enc: "get_encoding sv encoding_name = Inr encoding"
    and toks: "encode encoding text = Inr tokens"
    and pos: "1 \<le> max_tokens"
    and chunks: "chunks = chunks_of (nat max_tokens) tokens" by blast
  from embed_chunks_Inr [OF enc em] have
    vs: "map (embeddings_create sv model) chunks = map Inr vectors"
    and ts: "texts = map (decode encoding) chunks" by auto
  from vs have lv: "length vectors = length chunks" by (metis length_map)
  from pos have n: "0 < nat max_tokens" by simp
  have len: "length vectors = (length tokens + nat max_tokens - 1) div nat max_tokens"
    unfolding lv chunks by (rule length_chunks_of [OF n])
  have first: "tokens \<noteq> []
                 \<and> texts ! 0 = decode encoding (take (nat max_tokens) tokens)
                 \<and> generate_embeddings sv (take (nat max_tokens) tokens) model = Inr (vectors ! 0)"
    if "texts \<noteq> []"
  proof -
    from that ts have ne: "chunks \<noteq> []" by auto
    with chunks have tne: "tokens \<noteq> []" by auto
    from chunks_of_step [OF n tne] chunks
    have c0: "chunks ! 0 = take (nat max_tokens) tokens" by simp
    from ne have l0: "0 < length chunks" by simp
    from arg_cong [OF vs, of "\<lambda>xs. xs ! 0"] l0 lv
    have "embeddings_create sv model (chunks ! 0) = Inr (vectors ! 0)" by simp
    with c0 ts l0 tne show ?thesis by (simp add: generate_embeddings_def)
  qed
  from enc toks len first show ?thesis by blast
qed

lemma collect_eq:
  "collect futures completed data out =
     (data @ concat (map (\<lambda>k. case snd (futures ! k) of Inr result \<Rightarrow> result | Inl e \<Rightarrow> [])
                      completed),
      out @ concat (map (\<lambda>k. case snd (futures ! k) of
                                 Inr result \<Rightarrow> [] | Inl e \<Rightarrow> [Error_processing_file e])
                      completed))"
  by (induction completed arbitrary: data out) (auto split: sum.splits)

lemma submit_all_nth:
  "k < length files \<Longrightarrow>
   submit_all sv files cats model ! k = process_file sv (files ! k) (int k) cats model"
  by (simp add: submit_all_def enumerate_list_def)

lemma process_file_rows:
  assumes "snd (process_file sv file_path idx cats model) = Inr rows"
  shows "\<exists>text content_vectors content_text.
           read_document sv file_path (basename file_path) = Inr (Some text)
           \<and> len_safe_get_embedding sv text model EMBEDDING_CTX_LENGTH EMBEDDING_ENCODING
                = Inr (content_vectors, content_text)
           \<and> map row_text rows = content_text
           \<and> map row_content_vector rows = map (json_dumps sv) content_vectors
           \<and> map row_id rows = map (\<lambda>i. str_int idx @ ''_'' @ str_nat i) [0..<length rows]"
proof -
  from assms obtain content title_vectors title_text content_vectors content_text where
    d: "read_document sv file_path (basename file_path) = Inr (Some content)"
    and c: "len_safe_get_embedding sv content model EMBEDDING_CTX_LENGTH EMBEDDING_ENCODING
              = Inr (content_vectors, content_text)"
    and rows: "document_rows sv idx title_vectors title_text content_vectors content_text
                 (snd (categorize_text sv (join '' '' content_text) cats)) = Inr rows"
    by (auto simp: process_file_result split: sum.splits option.splits prod.splits)
  from len_safe_lengths [OF c] have l: "length content_vectors = length content_text" .
  from rows l have "map row_text rows = content_text"
    and "map row_content_vector rows = map (json_dumps sv) content_vectors"
    and "map row_id rows = map (\<lambda>i. str_int idx @ ''_'' @ str_nat i) [0..<length rows]"
    by (auto simp: document_rows_def chunk_row_def comp_def map_nth
          intro: nth_equalityI split: if_splits)
  with d c show ?thesis by blast
qed

section \<open>A concrete environment\<close>

text \<open>A tokenizer with one token per character (its code), an embedding service that
  returns the sum and the number of the tokens of its input, a chat service that fails on
  the document whose text is \<^verbatim>\<open>bad\<close>, and a folder of three text files. The
  theorems below are instantiated in it.\<close>

definition demo_encoding :: encoding where
  "demo_encoding = \<lparr>encode = (\<lambda>s. Inr (map of_char s)), decode = map char_of\<rparr>"

definition demo_services :: "real list services" where
  "demo_services =
     \<lparr>get_encoding = (\<lambda>name. if name = ''cl100k_base'' then Inr demo_encoding
                              else Inl (ValueError ''Unknown encoding'')),
      embeddings_create = (\<lambda>model input. Inr [real (sum_list input), real (length input)]),
      chat_completions_create = (\<lambda>model messages.
         if map snd (tl messages) = [''bad''] then Inl (LibraryError ''rate limit'')
         else Inr ''other''),
      read_text = (\<lambda>path.
         if path = ''docs/a.txt'' then Inr ''ABC''
         else if path = ''docs/b.txt'' then Inr ''bad''
         else if path = ''docs/c.txt'' then Inr ''XY''
         else Inl (LibraryError ''No such file'')),
      pdf_pages = (\<lambda>path. Inr [''AB'', ''CD'']),
      json_dumps = (\<lambda>v. join '', '' (map (\<lambda>x. str_int \<lfloor>x\<rfloor>) v))\<rparr>"

lemma demo_get_encoding: "get_encoding demo_services ''cl100k_base'' = Inr demo_encoding"
  by (simp add: demo_services_def)

lemma demo_embeddings_create:
  "embeddings_create demo_services model input = Inr [real (sum_list input), real (length input)]"
  by (simp add: demo_services_def)

lemma demo_chat_completions_create:
  "chat_completions_create demo_services model messages =
     (if map snd (tl messages) = [''bad''] then Inl (LibraryError ''rate limit'')
      else Inr ''other'')"
  by (simp add: demo_services_def)

lemma demo_read_text:
  "read_text demo_services path =
     (if path = ''docs/a.txt'' then Inr ''ABC''
      else if path = ''docs/b.txt'' then Inr ''bad''
      else if path = ''docs/c.txt'' then Inr ''XY''
      else Inl (LibraryError ''No such file''))"
  by (simp add: demo_services_def)

lemma demo_json_dumps:
  "json_dumps demo_services v = join '', '' (map (\<lambda>x. str_int \<lfloor>x\<rfloor>) v)"
  by (simp add: demo_services_def)

lemma demo_decode: "decode demo_encoding tokens = map char_of tokens"
  by (simp add: demo_encoding_def)

lemma demo_encode_ABCDEFG: "encode demo_encoding ''ABCDEFG'' = Inr [65, 66, 67, 68, 69, 70, 71]"
  by (simp add: demo_encoding_def)

lemma demo_encode_ABC: "encode demo_encoding ''ABC'' = Inr [65, 66, 67]"
  by (simp add: demo_encoding_def)

lemma demo_split_ABC:
  "fst (iterate demo_services (chunked_tokens ''ABC'' 2 ''cl100k_base'')) = Inr [[65, 66], [67]]"
  by (simp add: iterate_created_cases demo_get_encoding demo_encode_ABC chunks_of.simps
          sys_maxsize_def)

lemma demo_split_too_large:
  "iterate demo_services (chunked_tokens text 9223372036854775808 ''cl100k_base'') =
     (Inl (ValueError ''Stop argument for islice() must be None or an integer: 0 <= x <= sys.maxsize.''),
      Chunked_Finished)"
  by (simp add: iterate_created_cases demo_get_encoding demo_encoding_def sys_maxsize_def)

lemma demo_next_too_large:
  "chunked_tokens_next demo_services (chunked_tokens text 9223372036854775808 ''cl100k_base'') =
     (Raise (ValueError ''Stop argument for islice() must be None or an integer: 0 <= x <= sys.maxsize.''),
      Chunked_Finished)"
  by (simp add: chunked_tokens_def batched_def yield_from_def batched_resume_def islice_def
        demo_get_encoding demo_encoding_def sys_maxsize_def)

lemma demo_embed_ABC:
  "len_safe_get_embedding demo_services ''ABC'' ''text-embedding-3-small'' 2 ''cl100k_base''
     = Inr ([[131, 2], [67, 1]], [''AB'', ''C''])"
  by (simp add: len_safe_get_embedding_cases demo_split_ABC generate_embeddings_def
        demo_get_encoding demo_embeddings_create demo_decode char_of_def bit_Suc_0_iff)

lemma demo_embed_one_chunk:
  assumes "text \<noteq> []" and "length text \<le> 8191"
  shows "len_safe_get_embedding demo_services text model EMBEDDING_CTX_LENGTH EMBEDDING_ENCODING =
           Inr ([[real (sum_list (map of_char text)), real (length text)]], [text])"
proof -
  have enc: "get_encoding demo_services EMBEDDING_ENCODING = Inr demo_encoding"
    by (simp add: EMBEDDING_ENCODING_def demo_get_encoding)
  have toks: "encode demo_encoding text = Inr (map of_char text)"
    by (simp add: demo_encoding_def)
  have one: "chunks_of (nat EMBEDDING_CTX_LENGTH) (map of_char text) = [map of_char text :: nat list]"
    using assms by (subst chunks_of.simps) (simp add: EMBEDDING_CTX_LENGTH_def)
  have "fst (iterate demo_services (chunked_tokens text EMBEDDING_CTX_LENGTH EMBEDDING_ENCODING)) =
          Inr [map of_char text]"
    using one by (simp add: iterate_created [OF enc toks] EMBEDDING_CTX_LENGTH_def sys_maxsize_def)
  then show ?thesis
    by (simp add: len_safe_get_embedding_cases generate_embeddings_def demo_embeddings_create
          enc demo_decode comp_def)
qed

lemma demo_read_document:
  "read_document demo_services ''docs/a.txt'' ''a.txt'' = Inr (Some ''ABC'')"
  "read_document demo_services ''docs/b.txt'' ''b.txt'' = Inr (Some ''bad'')"
  "read_document demo_services ''docs/c.txt'' ''c.txt'' = Inr (Some ''XY'')"
  by (simp_all add: read_document_def endswith_def demo_read_text)

lemma demo_basename:
  "basename ''docs/a.txt'' = ''a.txt''"
  "basename ''docs/b.txt'' = ''b.txt''"
  "basename ''docs/c.txt'' = ''c.txt''"
  by (simp_all add: basename_def)

lemma demo_categorize:
  "categorize_text demo_services ''ABC'' categories = ([], Some ''other'')"
  "categorize_text demo_services ''bad'' categories =
     ([Error_categorizing_text (LibraryError ''rate limit'')], None)"
  "categorize_text demo_services ''XY'' categories = ([], Some ''other'')"
  by (simp_all add: categorize_text_def categorize_messages_def demo_chat_completions_create)

lemma demo_str:
  "str_int 0 = ''0''" "str_int 1 = ''1''" "str_int 2 = ''2''" "str_nat 0 = ''0''"
  by (simp_all add: str_int_def str_nat.simps)

lemma demo_process_a:
  "snd (process_file demo_services ''docs/a.txt'' 0 categories embeddings_model) =
     Inr [\<lparr>row_id = ''0_0'', row_vector_id = ''0_0'', row_title = ''a.txt'', row_text = ''ABC'',
           row_title_vector = ''495, 5'', row_content_vector = ''198, 3'',
           row_category = Some ''other''\<rparr>]"
  by (simp add: process_file_result demo_basename demo_read_document demo_embed_one_chunk
        demo_categorize document_rows_def chunk_row_def demo_json_dumps demo_str
        str_int_def str_nat.simps)

lemma demo_process_b:
  "snd (process_file demo_services ''docs/b.txt'' 1 categories embeddings_model) =
     Inr [\<lparr>row_id = ''1_0'', row_vector_id = ''1_0'', row_title = ''b.txt'', row_text = ''bad'',
           row_title_vector = ''496, 5'', row_content_vector = ''295, 3'',
           row_category = None\<rparr>]"
  by (simp add: process_file_result demo_basename demo_read_document demo_embed_one_chunk
        demo_categorize document_rows_def chunk_row_def demo_json_dumps demo_str
        str_int_def str_nat.simps)

lemma demo_process_c:
  "snd (process_file demo_services ''docs/c.txt'' 2 categories embeddings_model) =
     Inr [\<lparr>row_id = ''2_0'', row_vector_id = ''2_0'', row_title = ''c.txt'', row_text = ''XY'',
           row_title_vector = ''497, 5'', row_content_vector = ''177, 2'',
           row_category = Some ''other''\<rparr>]"
  by (simp add: process_file_result demo_basename demo_read_document demo_embed_one_chunk
        demo_categorize document_rows_def chunk_row_def demo_json_dumps demo_str
        str_int_def str_nat.simps)

lemma demo_process_files:
  "process_files demo_services [''docs/a.txt'', ''docs/b.txt'', ''docs/c.txt'']
     categories embeddings_model [2, 0, 1] =
   ([\<lparr>row_id = ''2_0'', row_vector_id = ''2_0'', row_title = ''c.txt'', row_text = ''XY'',
       row_title_vector = ''497, 5'', row_content_vector = ''177, 2'',
       row_category = Some ''other''\<rparr>,
     \<lparr>row_id = ''0_0'', row_vector_id = ''0_0'', row_title = ''a.txt'', row_text = ''ABC'',
       row_title_vector = ''495, 5'', row_content_vector = ''198, 3'',
       row_category = Some ''other''\<rparr>,
     \<lparr>row_id = ''1_0'', row_vector_id = ''1_0'', row_title = ''b.txt'', row_text = ''bad'',
       row_title_vector = ''496, 5'', row_content_vector = ''295, 3'',
       row_category = None\<rparr>], [])"
  by (simp add: process_files_def collect_eq submit_all_def enumerate_list_def upt_rec
        demo_process_a demo_process_b demo_process_c)

lemma demo_process_missing:
  "snd (process_file demo_services ''docs/missing.txt'' 1 categories embeddings_model) =
     Inl (LibraryError ''No such file'')"
  by (simp add: process_file_result basename_def read_document_def endswith_def demo_read_text)

lemma demo_process_files_missing:
  "process_files demo_services [''docs/a.txt'', ''docs/missing.txt'', ''docs/c.txt'']
     categories embeddings_model [2, 0, 1] =
   ([\<lparr>row_id = ''2_0'', row_vector_id = ''2_0'', row_title = ''c.txt'', row_text = ''XY'',
       row_title_vector = ''497, 5'', row_content_vector = ''177, 2'',
       row_category = Some ''other''\<rparr>,
     \<lparr>row_id = ''0_0'', row_vector_id = ''0_0'', row_title = ''a.txt'', row_text = ''ABC'',
       row_title_vector = ''495, 5'', row_content_vector = ''198, 3'',
       row_category = Some ''other''\<rparr>],
    [Error_processing_file (LibraryError ''No such file'')])"
  by (simp add: process_files_def collect_eq submit_all_def enumerate_list_def upt_rec
        demo_process_a demo_process_missing demo_process_c)

text \<open>A second tokenizer, with 4096 tokens per character: the five characters of the
  title \<^verbatim>\<open>a.txt\<close> are 20480 tokens, three chunks of at most 8191.\<close>

definition demo_wide_encoding :: encoding where
  "demo_wide_encoding =
     \<lparr>encode = (\<lambda>s. Inr (concat (map (\<lambda>c. replicate 4096 (of_char c)) s))),
      decode = map char_of\<rparr>"

definition demo_wide_services :: "real list services" where
  "demo_wide_services = demo_services\<lparr>get_encoding := \<lambda>name. Inr demo_wide_encoding\<rparr>"

lemma demo_wide_embed:
  "len_safe_get_embedding demo_wide_services text model EMBEDDING_CTX_LENGTH EMBEDDING_ENCODING =
     Inr (map (\<lambda>chunk. [real (sum_list chunk), real (length chunk)])
            (chunks_of 8191 (concat (map (\<lambda>c. replicate 4096 (of_char c :: nat)) text))),
          map (map char_of)
            (chunks_of 8191 (concat (map (\<lambda>c. replicate 4096 (of_char c :: nat)) text))))"
proof -
  let ?tokens = "concat (map (\<lambda>c. replicate 4096 (of_char c :: nat)) text)"
  have enc: "get_encoding demo_wide_services EMBEDDING_ENCODING = Inr demo_wide_encoding"
    by (simp add: demo_wide_services_def)
  have toks: "encode demo_wide_encoding text = Inr ?tokens"
    by (simp add: demo_wide_encoding_def)
  have it: "fst (iterate demo_wide_services
                  (chunked_tokens text EMBEDDING_CTX_LENGTH EMBEDDING_ENCODING)) =
              Inr (chunks_of 8191 ?tokens)"
    by (simp add: iterate_created [OF enc toks] EMBEDDING_CTX_LENGTH_def sys_maxsize_def)
  have vs: "map (embeddings_create demo_wide_services model) (chunks_of 8191 ?tokens) =
              map Inr (map (\<lambda>chunk. [real (sum_list chunk), real (length chunk)])
                         (chunks_of 8191 ?tokens))"
    by (simp add: demo_wide_services_def demo_embeddings_create)
  from embed_chunks_ok [OF enc vs, of "[]" "[]"] it show ?thesis
    by (simp add: len_safe_get_embedding_cases demo_wide_encoding_def)
qed

lemma demo_wide_title:
  "len_safe_get_embedding demo_wide_services ''a.txt'' model EMBEDDING_CTX_LENGTH EMBEDDING_ENCODING =
     Inr ([[585682, 8191], [966462, 8191], [475376, 4098]],
          [replicate 4096 CHR ''a'' @ replicate 4095 CHR ''.'',
           replicate 1 CHR ''.'' @ replicate 4096 CHR ''t'' @ replicate 4094 CHR ''x'',
           replicate 2 CHR ''x'' @ replicate 4096 CHR ''t''])"
  by (simp add: demo_wide_embed chunks_of.simps char_of_def bit_Suc_0_iff sum_list_replicate)

lemma demo_wide_content:
  "len_safe_get_embedding demo_wide_services ''ABC'' model EMBEDDING_CTX_LENGTH EMBEDDING_ENCODING =
     Inr ([[536510, 8191], [274498, 4097]],
          [replicate 4096 CHR ''A'' @ replicate 4095 CHR ''B'',
           replicate 1 CHR ''B'' @ replicate 4096 CHR ''C''])"
  by (simp add: demo_wide_embed chunks_of.simps char_of_def bit_Suc_0_iff sum_list_replicate)

lemma demo_wide_process:
  "\<exists>r0 r1. snd (process_file demo_wide_services ''docs/a.txt'' 0 categories embeddings_model)
      = Inr [r0, r1]
     \<and> row_title r0 = replicate 4096 CHR ''a'' @ replicate 4095 CHR ''.''
     \<and> row_title r1 = replicate 4096 CHR ''a'' @ replicate 4095 CHR ''.''
     \<and> row_title_vector r0 = ''585682, 8191''
     \<and> row_title_vector r1 = ''585682, 8191''"
proof -
  have doc: "read_document demo_wide_services ''docs/a.txt'' ''a.txt'' = Inr (Some ''ABC'')"
    by (simp add: read_document_def endswith_def demo_wide_services_def demo_read_text)
  have js: "json_dumps demo_wide_services [585682, 8191] = ''585682, 8191''"
    by (simp add: demo_wide_services_def demo_json_dumps str_int_def str_nat.simps)
  have two: "[0..<2] = [0, 1]" by (simp add: upt_rec)
  show ?thesis
    by (simp add: process_file_result demo_basename doc demo_wide_title demo_wide_content
          document_rows_def chunk_row_def js two)
qed

section \<open>The combination the specification describes\<close>

text \<open>Stated from the specification, not from the notebook (which has no such code):
  \<^verbatim>\<open>weight_i = chunk_i.token_count / total_tokens\<close>,
  \<^verbatim>\<open>result_j = sum_i weight_i * vector_i[j]\<close>. An element of the list is a chunk's token
  count and its vector.\<close>

definition weighted_average :: "(nat \<times> real list) list \<Rightarrow> real list" where
  "weighted_average chunks =
     (let total_tokens = sum_list (map fst chunks) in
      map (\<lambda>j. \<Sum>(token_count, vector) \<leftarrow> chunks.
                   (real token_count / real total_tokens) * vector ! j)
        [0..<length (snd (hd chunks))])"

section \<open>The claims\<close>

text \<open>
  Claim C2 says that for every max_tokens M \<ge> 1 the chunks of the split, concatenated,
  are the token sequence. \<^verbatim>\<open>islice\<close> accepts no limit above \<^verbatim>\<open>sys.maxsize\<close>: with
  M = \<open>2^63\<close> the first \<^verbatim>\<open>next\<close> raises \<^verbatim>\<open>ValueError\<close> and the three tokens of
  \<^verbatim>\<open>ABC\<close> come in no chunk.
\<close>

theorem chunks_concat_counterexample:
  "(1 :: int) \<le> 9223372036854775808
   \<and> encode demo_encoding ''ABC'' = Inr [65, 66, 67]
   \<and> chunked_tokens_next demo_services (chunked_tokens ''ABC'' 9223372036854775808 ''cl100k_base'') =
       (Raise (ValueError ''Stop argument for islice() must be None or an integer: 0 <= x <= sys.maxsize.''),
        Chunked_Finished)
   \<and> fst (iterate demo_services (chunked_tokens ''ABC'' 9223372036854775808 ''cl100k_base'')) =
       Inl (ValueError ''Stop argument for islice() must be None or an integer: 0 <= x <= sys.maxsize.'')"
  by (simp add: demo_encode_ABC demo_split_too_large demo_next_too_large)

text \<open>
  Claim C2, amended. For every text T and every max_tokens M with 1 \<le> M \<le>
  \<^verbatim>\<open>sys.maxsize\<close> (\<open>2^63 - 1\<close>), concatenating in order the token chunks produced by
  splitting T with limit M yields exactly the token sequence obtained by encoding T: no
  token is dropped, duplicated or reordered. (The chunks are what iterating the generator
  returned by \<open>chunked_tokens\<close> yields.)
\<close>
theorem chunks_concat:
  assumes "get_encoding sv encoding_name = Inr encoding"
    and "encode encoding text = Inr tokens"
    and "1 \<le> chunk_length" and "chunk_length \<le> sys_maxsize"
  shows "\<exists>chunks. fst (iterate sv (chunked_tokens text chunk_length encoding_name)) = Inr chunks
           \<and> concat chunks = tokens"
  using assms by (simp add: iterate_created concat_chunks_of)

theorem chunks_concat_witness:
  "get_encoding demo_services ''cl100k_base'' = Inr demo_encoding
   \<and> (3 :: int) \<le> sys_maxsize
   \<and> encode demo_encoding ''ABCDEFG'' = Inr [65, 66, 67, 68, 69, 70, 71]
   \<and> (\<exists>chunks. fst (iterate demo_services (chunked_tokens ''ABCDEFG'' 3 ''cl100k_base'')) = Inr chunks
         \<and> concat chunks = [65, 66, 67, 68, 69, 70, 71])"
  using chunks_concat [OF demo_get_encoding demo_encode_ABCDEFG, of 3]
  by (simp add: demo_get_encoding demo_encode_ABCDEFG sys_maxsize_def)

text \<open>
  Claim C3 says that for every max_tokens M \<ge> 1 the splitter produces chunks of M tokens
  and a last chunk of 1 to M tokens. With M = \<open>2^63\<close>, above \<^verbatim>\<open>sys.maxsize\<close>, the seven
  tokens of \<^verbatim>\<open>ABCDEFG\<close> give no chunk at all: the iteration ends with the
  \<^verbatim>\<open>ValueError\<close> of \<^verbatim>\<open>islice\<close>.
\<close>

theorem chunk_lengths_counterexample:
  "(1 :: int) \<le> 9223372036854775808
   \<and> encode demo_encoding ''ABCDEFG'' = Inr [65, 66, 67, 68, 69, 70, 71]
   \<and> iterate demo_services (chunked_tokens ''ABCDEFG'' 9223372036854775808 ''cl100k_base'') =
       (Inl (ValueError ''Stop argument for islice() must be None or an integer: 0 <= x <= sys.maxsize.''),
        Chunked_Finished)"
  by (simp add: demo_encode_ABCDEFG demo_split_too_large)

text \<open>
  Claim C3, amended. For every text T and every max_tokens M with 1 \<le> M \<le>
  \<^verbatim>\<open>sys.maxsize\<close> (\<open>2^63 - 1\<close>), every chunk except possibly the last has exactly M
  tokens, the last chunk has between 1 and M tokens, an empty token sequence yields zero
  chunks, and M = 1 on a text with N tokens yields exactly N single-token chunks.
\<close>
theorem chunk_lengths:
  assumes "get_encoding sv encoding_name = Inr encoding"
    and "encode encoding text = Inr tokens"
    and "1 \<le> chunk_length" and "chunk_length \<le> sys_maxsize"
  shows "\<exists>chunks. fst (iterate sv (chunked_tokens text chunk_length encoding_name)) = Inr chunks
           \<and> (\<forall>i. Suc i < length chunks \<longrightarrow> length (chunks ! i) = nat chunk_length)
           \<and> (chunks \<noteq> [] \<longrightarrow>
                 1 \<le> length (last chunks) \<and> length (last chunks) \<le> nat chunk_length)
           \<and> (tokens = [] \<longrightarrow> chunks = [])
           \<and> (chunk_length = 1 \<longrightarrow> chunks = map (\<lambda>t. [t]) tokens)"
proof -
  let ?chunks = "chunks_of (nat chunk_length) tokens"
  have it: "fst (iterate sv (chunked_tokens text chunk_length encoding_name)) = Inr ?chunks"
    using assms by (simp add: iterate_created)
  have full: "\<forall>i. Suc i < length ?chunks \<longrightarrow> length (?chunks ! i) = nat chunk_length"
    by (simp add: chunks_of_full)
  have lst: "?chunks \<noteq> [] \<longrightarrow>
      1 \<le> length (last ?chunks) \<and> length (last ?chunks) \<le> nat chunk_length"
    using chunk_sizes [of "last ?chunks" "nat chunk_length" tokens] by simp
  have emp: "tokens = [] \<longrightarrow> ?chunks = []" by simp
  have one: "chunk_length = 1 \<longrightarrow> ?chunks = map (\<lambda>t. [t]) tokens"
    by (simp add: chunks_of_1)
  from it full lst emp one show ?thesis by blast
qed

theorem chunk_lengths_witness:
  "get_encoding demo_services ''cl100k_base'' = Inr demo_encoding
   \<and> (3 :: int) \<le> sys_maxsize
   \<and> encode demo_encoding ''ABCDEFG'' = Inr [65, 66, 67, 68, 69, 70, 71]
   \<and> (\<exists>chunks. fst (iterate demo_services (chunked_tokens ''ABCDEFG'' 3 ''cl100k_base'')) = Inr chunks
        \<and> chunks = [[65, 66, 67], [68, 69, 70], [71]]
        \<and> length (chunks ! 0) = 3 \<and> length (chunks ! 1) = 3 \<and> length (last chunks) = 1)"
proof -
  have ev: "fst (iterate demo_services (chunked_tokens ''ABCDEFG'' 3 ''cl100k_base''))
          = Inr [[65, 66, 67], [68, 69, 70], [71]]"
    by (simp add: iterate_created_cases demo_get_encoding demo_encode_ABCDEFG chunks_of.simps
          sys_maxsize_def)
  from chunk_lengths [OF demo_get_encoding demo_encode_ABCDEFG, of 3] ev
  show ?thesis by (auto simp: demo_get_encoding demo_encode_ABCDEFG sys_maxsize_def)
qed




text \<open>
  Claim C4. For every input text on which all per-chunk embedding requests succeed, the
  embedder returns exactly one embedding vector and one decoded chunk text per chunk, in
  chunk order: the i-th vector is the embedding of the i-th chunk and the i-th text is the
  decoding of the i-th chunk.
\<close>
theorem one_vector_per_chunk:
  assumes "fst (iterate sv (chunked_tokens text max_tokens encoding_name)) = Inr chunks"
    and "\<forall>c\<in>set chunks. \<exists>v. embeddings_create sv model c = Inr v"
  shows "\<exists>vectors texts encoding.
           get_encoding sv encoding_name = Inr encoding
           \<and> len_safe_get_embedding sv text model max_tokens encoding_name = Inr (vectors, texts)
           \<and> length vectors = length chunks \<and> length texts = length chunks
           \<and> (\<forall>i<length chunks.
                 embeddings_create sv model (chunks ! i) = Inr (vectors ! i)
                 \<and> texts ! i = decode encoding (chunks ! i))"
proof -
  from iterate_Inr_D [OF assms(1)] obtain encoding where
    enc: "get_encoding sv encoding_name = Inr encoding" by blast
  from all_embedded [OF assms(2)] obtain vs where
    vs: "map (embeddings_create sv model) chunks = map Inr vs" by blast
  then have len: "length vs = length chunks" by (metis length_map)
  have res: "len_safe_get_embedding sv text model max_tokens encoding_name =
               Inr (vs, map (decode encoding) chunks)"
    using embed_chunks_ok [OF enc vs, of "[]" "[]"] assms(1)
    by (simp add: len_safe_get_embedding_cases)
  have nth: "embeddings_create sv model (chunks ! i) = Inr (vs ! i)" if "i < length chunks" for i
    using arg_cong [OF vs, of "\<lambda>xs. xs ! i"] that len by simp
  from enc res len nth show ?thesis by (intro exI [of _ vs] exI [of _ "map (decode encoding) chunks"] exI [of _ encoding]) simp
qed

theorem one_vector_per_chunk_witness:
  "fst (iterate demo_services (chunked_tokens ''ABC'' 2 ''cl100k_base'')) = Inr [[65, 66], [67]]
   \<and> embeddings_create demo_services ''text-embedding-3-small'' [65, 66] = Inr [131, 2]
   \<and> embeddings_create demo_services ''text-embedding-3-small'' [67] = Inr [67, 1]
   \<and> (\<exists>vectors texts.
         len_safe_get_embedding demo_services ''ABC'' ''text-embedding-3-small'' 2 ''cl100k_base''
           = Inr (vectors, texts)
         \<and> vectors = [[131, 2], [67, 1]] \<and> texts = [''AB'', ''C''])"
proof -
  have emb: "\<forall>c\<in>set [[65, 66], [67]].
      \<exists>v. embeddings_create demo_services ''text-embedding-3-small'' c = Inr v"
    by (simp add: demo_embeddings_create)
  from one_vector_per_chunk [OF demo_split_ABC emb] demo_embed_ABC demo_split_ABC
  show ?thesis by (simp add: demo_embeddings_create)
qed

text \<open>
  Claim C1 says that the embedder, called with \<^verbatim>\<open>combine=True\<close>, returns the single
  token-count-weighted average of the per-chunk vectors. \<^verbatim>\<open>len_safe_get_embedding\<close> has
  no such parameter and computes nothing from the vectors. On the three tokens of
  \<^verbatim>\<open>ABC\<close> with max_tokens 2 the chunks have 2 and 1 tokens and the vectors (131, 2) and
  (67, 1); their weighted average is (329/3, 5/3), and the function returns the two
  vectors.
\<close>

theorem combine_counterexample:
  "fst (iterate demo_services (chunked_tokens ''ABC'' 2 ''cl100k_base'')) = Inr [[65, 66], [67]]
   \<and> generate_embeddings demo_services [65, 66] ''text-embedding-3-small'' = Inr [131, 2]
   \<and> generate_embeddings demo_services [67] ''text-embedding-3-small'' = Inr [67, 1]
   \<and> weighted_average [(2, [131, 2]), (1, [67, 1])] = [329 / 3, 5 / 3]
   \<and> len_safe_get_embedding demo_services ''ABC'' ''text-embedding-3-small'' 2 ''cl100k_base''
       = Inr ([[131, 2], [67, 1]], [''AB'', ''C''])
   \<and> [[131, 2], [67, 1]] \<noteq> [[329 / 3, 5 / 3 :: real]]"
  by (simp add: demo_split_ABC demo_embed_ABC generate_embeddings_def demo_embeddings_create
        weighted_average_def)

text \<open>
  Claim C1, amended. For every text that encodes to N tokens, every max_tokens M \<ge> 1 and
  every call of the embedder that returns, the vectors returned are the embeddings of the
  chunks, one per chunk in chunk order and unchanged; there are \<lceil>N / M\<rceil> of them, so the
  result is a single vector exactly when 1 \<le> N \<le> M.
\<close>

theorem per_chunk_vectors:
  assumes "get_encoding sv encoding_name = Inr encoding"
    and "encode encoding text = Inr tokens"
    and "1 \<le> max_tokens"
    and "len_safe_get_embedding sv text model max_tokens encoding_name = Inr (vectors, texts)"
  shows "\<exists>chunks. fst (iterate sv (chunked_tokens text max_tokens encoding_name)) = Inr chunks
           \<and> map (\<lambda>chunk. generate_embeddings sv chunk model) chunks = map Inr vectors
           \<and> length vectors = (length tokens + nat max_tokens - 1) div nat max_tokens
           \<and> (length vectors = 1) = (1 \<le> length tokens \<and> length tokens \<le> nat max_tokens)"
proof -
  let ?chunks = "chunks_of (nat max_tokens) tokens"
  have le: "max_tokens \<le> sys_maxsize"
  proof (rule ccontr)
    assume "\<not> max_tokens \<le> sys_maxsize"
    then have "sys_maxsize < max_tokens" by simp
    from iterate_created_too_large [OF assms(1,2) this] assms(4) show False
      by (simp add: len_safe_get_embedding_cases)
  qed
  with assms have it: "fst (iterate sv (chunked_tokens text max_tokens encoding_name)) = Inr ?chunks"
    by (simp add: iterate_created)
  with assms(4) have "embed_chunks sv model encoding_name ?chunks [] [] = Inr (vectors, texts)"
    by (simp add: len_safe_get_embedding_cases)
  from embed_chunks_Inr [OF assms(1) this]
  have vs: "map (embeddings_create sv model) ?chunks = map Inr vectors" by simp
  then have lv: "length vectors = length ?chunks" by (metis length_map)
  from assms(3) have pos: "0 < nat max_tokens" by simp
  have len: "length vectors = (length tokens + nat max_tokens - 1) div nat max_tokens"
    unfolding lv by (rule length_chunks_of [OF pos])
  have one: "(length vectors = 1) = (1 \<le> length tokens \<and> length tokens \<le> nat max_tokens)"
    unfolding lv chunks_of_single [OF pos] by (cases tokens) simp_all
  from vs have "map (\<lambda>chunk. generate_embeddings sv chunk model) ?chunks = map Inr vectors"
    by (simp add: generate_embeddings_def)
  with it len one show ?thesis by blast
qed

theorem per_chunk_vectors_witness:
  "get_encoding demo_services ''cl100k_base'' = Inr demo_encoding
   \<and> encode demo_encoding ''ABC'' = Inr [65, 66, 67]
   \<and> len_safe_get_embedding demo_services ''ABC'' ''text-embedding-3-small'' 2 ''cl100k_base''
        = Inr ([[131, 2], [67, 1]], [''AB'', ''C''])
   \<and> (\<exists>chunks. fst (iterate demo_services (chunked_tokens ''ABC'' 2 ''cl100k_base'')) = Inr chunks
         \<and> map (\<lambda>chunk. generate_embeddings demo_services chunk ''text-embedding-3-small'') chunks
              = map Inr [[131, 2], [67, 1]]
         \<and> length [[131, 2], [67, 1 :: real]] = (length [65, 66, 67 :: nat] + 2 - 1) div 2)"
  using per_chunk_vectors [OF demo_get_encoding demo_encode_ABC _ demo_embed_ABC]
  by (simp add: demo_get_encoding demo_encode_ABC demo_embed_ABC)

text \<open>
  Claim C7 says that, for every max_tokens \<ge> 1, the sequence returned by the split can
  be iterated a second time and yields the same chunks again. \<^verbatim>\<open>chunked_tokens\<close>
  returns a generator: after one full iteration it is finished, and iterating the same
  object again yields nothing. And with max_tokens = \<open>2^63\<close>, above \<^verbatim>\<open>sys.maxsize\<close>, the
  first iteration already ends with the \<^verbatim>\<open>ValueError\<close> of \<^verbatim>\<open>islice\<close>.
\<close>

theorem reiterate_counterexample:
  "fst (iterate demo_services (chunked_tokens ''ABC'' 2 ''cl100k_base'')) = Inr [[65, 66], [67]]
   \<and> fst (iterate demo_services
            (snd (iterate demo_services (chunked_tokens ''ABC'' 2 ''cl100k_base'')))) = Inr []
   \<and> fst (iterate demo_services (chunked_tokens ''ABC'' 9223372036854775808 ''cl100k_base'')) =
       Inl (ValueError ''Stop argument for islice() must be None or an integer: 0 <= x <= sys.maxsize.'')"
  using iterate_leaves_finished [of demo_services "chunked_tokens ''ABC'' 2 ''cl100k_base''"]
  by (simp add: demo_split_ABC iterate_finished demo_split_too_large)

text \<open>
  Claim C7, amended. For every text and max_tokens M with 1 \<le> M \<le> \<^verbatim>\<open>sys.maxsize\<close>
  (\<open>2^63 - 1\<close>), the value returned by the split is a finite, single-pass sequence of
  token-id chunks: one iteration ends after \<lceil>N / M\<rceil> chunks, whose concatenation is the
  token sequence, and iterating the same returned generator a second time yields no
  chunk.
\<close>

theorem single_pass:
  assumes "get_encoding sv encoding_name = Inr encoding"
    and "encode encoding text = Inr tokens"
    and "1 \<le> chunk_length" and "chunk_length \<le> sys_maxsize"
  shows "\<exists>chunks g. iterate sv (chunked_tokens text chunk_length encoding_name) = (Inr chunks, g)
           \<and> length chunks = (length tokens + nat chunk_length - 1) div nat chunk_length
           \<and> concat chunks = tokens
           \<and> iterate sv g = (Inr [], g)"
  using assms
  by (simp add: iterate_created iterate_finished length_chunks_of concat_chunks_of)

theorem single_pass_witness:
  "get_encoding demo_services ''cl100k_base'' = Inr demo_encoding
   \<and> (2 :: int) \<le> sys_maxsize
   \<and> encode demo_encoding ''ABC'' = Inr [65, 66, 67]
   \<and> (\<exists>g. iterate demo_services (chunked_tokens ''ABC'' 2 ''cl100k_base'') = (Inr [[65, 66], [67]], g)
         \<and> iterate demo_services g = (Inr [], g))"
proof -
  have "(1 :: int) \<le> 2" "(2 :: int) \<le> sys_maxsize" by (simp_all add: sys_maxsize_def)
  from single_pass [OF demo_get_encoding demo_encode_ABC this]
  obtain chunks g where
    a: "iterate demo_services (chunked_tokens ''ABC'' 2 ''cl100k_base'') = (Inr chunks, g)"
    and b: "iterate demo_services g = (Inr [], g)"
    by auto
  from a demo_split_ABC have "chunks = [[65, 66], [67]]" by simp
  with a b show ?thesis by (auto simp: demo_get_encoding demo_encode_ABC sys_maxsize_def)
qed

text \<open>
  Claim C8. The split is deterministic: two separate calls with the same text, max_tokens
  and encoding name yield identical chunk sequences (or the same exception). Each call
  looks the encoding up and encodes the text for itself; \<open>sv\<close> and \<open>sv'\<close> are the libraries
  as the two calls find them, which agree on the tokens of the text and may differ in
  everything else.
\<close>

theorem split_deterministic:
  assumes "get_encoding sv encoding_name = Inr encoding"
    and "get_encoding sv' encoding_name = Inr encoding'"
    and "encode encoding text = encode encoding' text"
  shows "fst (iterate sv (chunked_tokens text chunk_length encoding_name)) =
         fst (iterate sv' (chunked_tokens text chunk_length encoding_name))"
  using assms by (simp add: iterate_created_cases split: sum.splits)

theorem split_deterministic_witness:
  "get_encoding demo_services ''cl100k_base'' = Inr demo_encoding
   \<and> get_encoding (demo_services\<lparr>embeddings_create := \<lambda>model input. Inl (LibraryError ''down'')\<rparr>)
        ''cl100k_base'' = Inr demo_encoding
   \<and> fst (iterate demo_services (chunked_tokens ''ABC'' 2 ''cl100k_base'')) =
     fst (iterate (demo_services\<lparr>embeddings_create := \<lambda>model input. Inl (LibraryError ''down'')\<rparr>)
            (chunked_tokens ''ABC'' 2 ''cl100k_base''))
   \<and> fst (iterate demo_services (chunked_tokens ''ABC'' 2 ''cl100k_base'')) = Inr [[65, 66], [67]]"
proof -
  have e: "get_encoding (demo_services\<lparr>embeddings_create := \<lambda>model input. Inl (LibraryError ''down'')\<rparr>)
        ''cl100k_base'' = Inr demo_encoding"
    by (simp add: demo_get_encoding)
  from split_deterministic [OF demo_get_encoding e refl, of "''ABC''" 2] e
  show ?thesis by (simp add: demo_get_encoding demo_split_ABC)
qed

text \<open>
  Claim C9. If the classification call raises, \<open>categorize_text\<close> catches the exception,
  prints it and returns \<open>None\<close>; \<open>process_file\<close> then emits its rows with category
  \<open>None\<close>. The failure does not abort the document and is not an error of
  \<open>process_file\<close>: its outcome is the outcome with any other classification service
  \<open>chat\<close>, the categories replaced by \<open>None\<close>.
\<close>

theorem classification_failure:
  assumes "read_document sv file_path (basename file_path) = Inr (Some text)"
    and "len_safe_get_embedding sv (basename file_path) model
           EMBEDDING_CTX_LENGTH EMBEDDING_ENCODING = Inr (title_vectors, title_text)"
    and "len_safe_get_embedding sv text model
           EMBEDDING_CTX_LENGTH EMBEDDING_ENCODING = Inr (content_vectors, content_text)"
    and "chat_completions_create sv ''gpt-4o''
           (categorize_messages (join '' '' content_text) cats) = Inl e"
  shows "categorize_text sv (join '' '' content_text) cats = ([Error_categorizing_text e], None)
    \<and> Error_categorizing_text e \<in> set (fst (process_file sv file_path idx cats model))
    \<and> (\<forall>rows. snd (process_file sv file_path idx cats model) = Inr rows \<longrightarrow>
          length rows = length content_vectors \<and> (\<forall>r\<in>set rows. row_category r = None))
    \<and> (title_text \<noteq> [] \<longrightarrow> (\<exists>rows. snd (process_file sv file_path idx cats model) = Inr rows))
    \<and> snd (process_file sv file_path idx cats model) =
        map_sum id (map (\<lambda>r. r\<lparr>row_category := None\<rparr>))
          (snd (process_file (sv\<lparr>chat_completions_create := chat\<rparr>) file_path idx cats model))"
proof -
  have cat: "categorize_text sv (join '' '' content_text) cats = ([Error_categorizing_text e], None)"
    using assms(4) by (simp add: categorize_text_def)
  have res: "snd (process_file sv file_path idx cats model) =
      document_rows sv idx title_vectors title_text content_vectors content_text None"
    using assms(1-3) cat by (simp add: process_file_result)
  have log: "Error_categorizing_text e \<in> set (fst (process_file sv file_path idx cats model))"
    using process_file_log [OF assms(1-3), of idx cats] cat by auto
  have rows: "\<forall>rows. snd (process_file sv file_path idx cats model) = Inr rows \<longrightarrow>
          length rows = length content_vectors \<and> (\<forall>r\<in>set rows. row_category r = None)"
    unfolding res by (auto simp: document_rows_def chunk_row_def split: if_splits)
  have ok: "title_text \<noteq> [] \<longrightarrow> (\<exists>rows. snd (process_file sv file_path idx cats model) = Inr rows)"
    unfolding res by (simp add: document_rows_def)
  have "snd (process_file (sv\<lparr>chat_completions_create := chat\<rparr>) file_path idx cats model) =
      document_rows sv idx title_vectors title_text content_vectors content_text
        (snd (categorize_text (sv\<lparr>chat_completions_create := chat\<rparr>) (join '' '' content_text) cats))"
    using assms(1-3)
    by (simp add: process_file_result read_document_chat_update len_safe_chat_update
          document_rows_chat_update)
  then have same: "snd (process_file sv file_path idx cats model) =
        map_sum id (map (\<lambda>r. r\<lparr>row_category := None\<rparr>))
          (snd (process_file (sv\<lparr>chat_completions_create := chat\<rparr>) file_path idx cats model))"
    by (simp add: res document_rows_category)
  from cat log rows ok same show ?thesis by blast
qed

theorem classification_failure_witness:
  "read_document demo_services ''docs/b.txt'' (basename ''docs/b.txt'') = Inr (Some ''bad'')
   \<and> chat_completions_create demo_services ''gpt-4o''
         (categorize_messages (join '' '' [''bad'']) categories) = Inl (LibraryError ''rate limit'')
   \<and> categorize_text demo_services (join '' '' [''bad'']) categories
        = ([Error_categorizing_text (LibraryError ''rate limit'')], None)
   \<and> Error_categorizing_text (LibraryError ''rate limit'')
        \<in> set (fst (process_file demo_services ''docs/b.txt'' 1 categories embeddings_model))
   \<and> snd (process_file demo_services ''docs/b.txt'' 1 categories embeddings_model) =
     Inr [\<lparr>row_id = ''1_0'', row_vector_id = ''1_0'', row_title = ''b.txt'', row_text = ''bad'',
           row_title_vector = ''496, 5'', row_content_vector = ''295, 3'',
           row_category = None\<rparr>]"
proof -
  have doc: "read_document demo_services ''docs/b.txt'' (basename ''docs/b.txt'') = Inr (Some ''bad'')"
    by (simp add: demo_basename demo_read_document)
  have t: "len_safe_get_embedding demo_services (basename ''docs/b.txt'') embeddings_model
             EMBEDDING_CTX_LENGTH EMBEDDING_ENCODING = Inr ([[496, 5]], [''b.txt''])"
    by (simp add: demo_basename demo_embed_one_chunk)
  have c: "len_safe_get_embedding demo_services ''bad'' embeddings_model
             EMBEDDING_CTX_LENGTH EMBEDDING_ENCODING = Inr ([[295, 3]], [''bad''])"
    by (simp add: demo_embed_one_chunk)
  have chat: "chat_completions_create demo_services ''gpt-4o''
         (categorize_messages (join '' '' [''bad'']) categories) = Inl (LibraryError ''rate limit'')"
    by (simp add: categorize_messages_def demo_chat_completions_create)
  from classification_failure [OF doc t c chat, of 1 "\<lambda>model messages. Inr ''other''"]
    doc chat demo_process_b
  show ?thesis by simp
qed
text \<open>
  Claim C10. All rows of a processed document carry the same title text and the same title
  vector: the decoded text and the embedding of the first title chunk (the first 8191
  tokens of the file name). The title has \<lceil>N / 8191\<rceil> chunks for N tokens; the vectors
  and texts of the chunks after the first are in no row.
\<close>

theorem title_of_first_chunk:
  assumes "snd (process_file sv file_path idx cats model) = Inr rows"
  shows "\<exists>title_vectors title_text encoding tokens.
           len_safe_get_embedding sv (basename file_path) model
             EMBEDDING_CTX_LENGTH EMBEDDING_ENCODING = Inr (title_vectors, title_text)
           \<and> get_encoding sv EMBEDDING_ENCODING = Inr encoding
           \<and> encode encoding (basename file_path) = Inr tokens
           \<and> length title_vectors = (length tokens + 8190) div 8191
           \<and> length title_text = length title_vectors
           \<and> (\<forall>r\<in>set rows.
                 row_title r = title_text ! 0
                 \<and> row_title_vector r = json_dumps sv (title_vectors ! 0)
                 \<and> title_text ! 0 = decode encoding (take 8191 tokens)
                 \<and> generate_embeddings sv (take 8191 tokens) model = Inr (title_vectors ! 0))"
proof -
  from assms obtain title_vectors title_text content_vectors content_text where
    t: "len_safe_get_embedding sv (basename file_path) model
          EMBEDDING_CTX_LENGTH EMBEDDING_ENCODING = Inr (title_vectors, title_text)"
    and rows: "document_rows sv idx title_vectors title_text content_vectors content_text
                 (snd (categorize_text sv (join '' '' content_text) cats)) = Inr rows"
    by (auto simp: process_file_result split: sum.splits option.splits prod.splits)
  from len_safe_first_chunk [OF t] obtain encoding tokens where
    enc: "get_encoding sv EMBEDDING_ENCODING = Inr encoding"
    and toks: "encode encoding (basename file_path) = Inr tokens"
    and len0: "length title_vectors =
                 (length tokens + nat EMBEDDING_CTX_LENGTH - 1) div nat EMBEDDING_CTX_LENGTH"
    and first0: "title_text \<noteq> [] \<longrightarrow>
                 tokens \<noteq> []
                 \<and> title_text ! 0 = decode encoding (take (nat EMBEDDING_CTX_LENGTH) tokens)
                 \<and> generate_embeddings sv (take (nat EMBEDDING_CTX_LENGTH) tokens) model
                     = Inr (title_vectors ! 0)"
    by blast
  have ctx: "nat EMBEDDING_CTX_LENGTH = 8191" by (simp add: EMBEDDING_CTX_LENGTH_def)
  from len0 have len: "length title_vectors = (length tokens + 8190) div 8191"
    unfolding ctx by simp
  from first0 have first: "title_text \<noteq> [] \<longrightarrow>
                 tokens \<noteq> []
                 \<and> title_text ! 0 = decode encoding (take 8191 tokens)
                 \<and> generate_embeddings sv (take 8191 tokens) model = Inr (title_vectors ! 0)"
    unfolding ctx .
  have all: "row_title r = title_text ! 0
                 \<and> row_title_vector r = json_dumps sv (title_vectors ! 0)
                 \<and> title_text ! 0 = decode encoding (take 8191 tokens)
                 \<and> generate_embeddings sv (take 8191 tokens) model = Inr (title_vectors ! 0)"
    if "r \<in> set rows" for r
  proof -
    from that rows have "title_text \<noteq> []"
      and "row_title r = title_text ! 0"
      and "row_title_vector r = json_dumps sv (title_vectors ! 0)"
      by (auto simp: document_rows_def chunk_row_def split: if_splits)
    with first show ?thesis by simp
  qed
  from t enc toks len len_safe_lengths [OF t] all show ?thesis
    by (intro exI [of _ title_vectors] exI [of _ title_text] exI [of _ encoding]
          exI [of _ tokens]) simp
qed

theorem title_of_first_chunk_witness:
  "\<exists>r0 r1 title_vectors title_text.
     snd (process_file demo_wide_services ''docs/a.txt'' 0 categories embeddings_model) = Inr [r0, r1]
     \<and> len_safe_get_embedding demo_wide_services ''a.txt'' embeddings_model
           EMBEDDING_CTX_LENGTH EMBEDDING_ENCODING = Inr (title_vectors, title_text)
     \<and> length title_vectors = 3 \<and> length title_text = 3
     \<and> row_title r0 = title_text ! 0 \<and> row_title r1 = title_text ! 0
     \<and> row_title_vector r0 = json_dumps demo_wide_services (title_vectors ! 0)
     \<and> row_title_vector r1 = json_dumps demo_wide_services (title_vectors ! 0)
     \<and> title_text ! 0 = replicate 4096 CHR ''a'' @ replicate 4095 CHR ''.''"
proof -
  from demo_wide_process obtain r0 r1 where
    p: "snd (process_file demo_wide_services ''docs/a.txt'' 0 categories embeddings_model)
          = Inr [r0, r1]"
    by blast
  from title_of_first_chunk [OF p] obtain title_vectors title_text where
    t: "len_safe_get_embedding demo_wide_services (basename ''docs/a.txt'') embeddings_model
          EMBEDDING_CTX_LENGTH EMBEDDING_ENCODING = Inr (title_vectors, title_text)"
    and r: "\<forall>r\<in>set [r0, r1]. row_title r = title_text ! 0
              \<and> row_title_vector r = json_dumps demo_wide_services (title_vectors ! 0)"
    by blast
  from t have v: "title_vectors = [[585682, 8191], [966462, 8191], [475376, 4098]]"
    and x: "title_text = [replicate 4096 CHR ''a'' @ replicate 4095 CHR ''.'',
           replicate 1 CHR ''.'' @ replicate 4096 CHR ''t'' @ replicate 4094 CHR ''x'',
           replicate 2 CHR ''x'' @ replicate 4096 CHR ''t'']"
    by (simp_all add: demo_basename demo_wide_title)
  have l: "length title_vectors = 3" "length title_text = 3"
    "title_text ! 0 = replicate 4096 CHR ''a'' @ replicate 4095 CHR ''.''"
    unfolding v x by simp_all
  from p t r l show ?thesis
    by (intro exI [of _ r0] exI [of _ r1] exI [of _ title_vectors] exI [of _ title_text])
       (simp add: demo_basename)
qed
text \<open>
  Claim C6. In the loop over the files, whatever the order in which the futures complete:
  every document whose \<open>process_file\<close> raises no error contributes its rows to the output,
  all of them, together and in chunk order (one row per content chunk, with the chunk's
  text, vector and index), and the exception of a document whose \<open>process_file\<close> raises is
  caught and printed, without any effect on the others.
\<close>

theorem failure_isolation:
  assumes "completion_order (length files) completed"
    and "k < length files"
  shows "(\<forall>rows. snd (process_file sv (files ! k) (int k) cats model) = Inr rows \<longrightarrow>
            (\<exists>before after.
               fst (process_files sv files cats model completed) = before @ rows @ after)
            \<and> (\<exists>text content_vectors content_text.
                  read_document sv (files ! k) (basename (files ! k)) = Inr (Some text)
                  \<and> len_safe_get_embedding sv text model EMBEDDING_CTX_LENGTH EMBEDDING_ENCODING
                       = Inr (content_vectors, content_text)
                  \<and> map row_text rows = content_text
                  \<and> map row_content_vector rows = map (json_dumps sv) content_vectors
                  \<and> map row_id rows =
                       map (\<lambda>i. str_int (int k) @ ''_'' @ str_nat i) [0..<length rows]))
       \<and> (\<forall>e. snd (process_file sv (files ! k) (int k) cats model) = Inl e \<longrightarrow>
            Error_processing_file e \<in> set (snd (process_files sv files cats model completed)))"
proof -
  let ?futures = "submit_all sv files cats model"
  let ?rows = "\<lambda>k. case snd (?futures ! k) of Inr result \<Rightarrow> result | Inl e \<Rightarrow> []"
  let ?errs = "\<lambda>k. case snd (?futures ! k) of
                      Inr result \<Rightarrow> [] | Inl e \<Rightarrow> [Error_processing_file e]"
  from assms have "k \<in> set completed" by (simp add: completion_order_def)
  then obtain pre post where split: "completed = pre @ k # post"
    by (auto dest: split_list)
  have fut: "?futures ! k = process_file sv (files ! k) (int k) cats model"
    using assms(2) by (rule submit_all_nth)
  have data: "fst (process_files sv files cats model completed) =
                concat (map ?rows pre) @ ?rows k @ concat (map ?rows post)"
    by (simp add: process_files_def collect_eq split)
  have errs: "snd (process_files sv files cats model completed) =
                concat (map ?errs pre) @ ?errs k @ concat (map ?errs post)"
    by (simp add: process_files_def collect_eq split)
  have a: "\<exists>before after.
             fst (process_files sv files cats model completed) = before @ rows @ after"
    if "snd (process_file sv (files ! k) (int k) cats model) = Inr rows" for rows
    using that data fut by auto
  have b: "Error_processing_file e \<in> set (snd (process_files sv files cats model completed))"
    if "snd (process_file sv (files ! k) (int k) cats model) = Inl e" for e
    using that errs fut by simp
  from a b process_file_rows show ?thesis by blast
qed

theorem failure_isolation_witness:
  "completion_order (length [''docs/a.txt'', ''docs/missing.txt'', ''docs/c.txt'']) [2, 0, 1]
   \<and> snd (process_file demo_services ''docs/missing.txt'' 1 categories embeddings_model) =
        Inl (LibraryError ''No such file'')
   \<and> Error_processing_file (LibraryError ''No such file'')
        \<in> set (snd (process_files demo_services [''docs/a.txt'', ''docs/missing.txt'', ''docs/c.txt'']
                       categories embeddings_model [2, 0, 1]))
   \<and> (\<exists>before after.
         fst (process_files demo_services [''docs/a.txt'', ''docs/missing.txt'', ''docs/c.txt'']
                categories embeddings_model [2, 0, 1]) =
         before @
         [\<lparr>row_id = ''0_0'', row_vector_id = ''0_0'', row_title = ''a.txt'', row_text = ''ABC'',
            row_title_vector = ''495, 5'', row_content_vector = ''198, 3'',
            row_category = Some ''other''\<rparr>] @ after)
   \<and> (\<exists>before after.
         fst (process_files demo_services [''docs/a.txt'', ''docs/b.txt'', ''docs/c.txt'']
                categories embeddings_model [2, 0, 1]) =
         before @
         [\<lparr>row_id = ''1_0'', row_vector_id = ''1_0'', row_title = ''b.txt'', row_text = ''bad'',
            row_title_vector = ''496, 5'', row_content_vector = ''295, 3'',
            row_category = None\<rparr>] @ after)"
proof -
  have o1: "completion_order (length [''docs/a.txt'', ''docs/missing.txt'', ''docs/c.txt'']) [2, 0, 1]"
    by (auto simp: completion_order_def)
  have o2: "completion_order (length [''docs/a.txt'', ''docs/b.txt'', ''docs/c.txt'']) [2, 0, 1]"
    by (auto simp: completion_order_def)
  have k0: "0 < length [''docs/a.txt'', ''docs/missing.txt'', ''docs/c.txt'']" by simp
  have k1: "1 < length [''docs/a.txt'', ''docs/missing.txt'', ''docs/c.txt'']" by simp
  have k1': "1 < length [''docs/a.txt'', ''docs/b.txt'', ''docs/c.txt'']" by simp
  from failure_isolation [OF o1 k0, of demo_services categories embeddings_model]
    failure_isolation [OF o1 k1, of demo_services categories embeddings_model]
    failure_isolation [OF o2 k1', of demo_services categories embeddings_model]
    o1 demo_process_a demo_process_b demo_process_missing
  show ?thesis by simp
qed

end
